theory Spec2Isabelle
  imports Complex_Main
begin

section \<open>Whack-a-mole: the game logic of \<open>src/index.tsx\<close>\<close>

text \<open>
  The component \<open>App\<close> keeps five pieces of React state (\<open>score\<close>, \<open>timeLeft\<close>,
  \<open>isActive\<close>, \<open>holeContents\<close>, \<open>gameOverReason\<close>) and one ref (\<open>moleTimeouts\<close>), and
  changes them from a click handler per hole, a start button, a one-second timeout that is
  re-armed by an effect, a one-second interval that spawns moles and bombs, and one timeout
  per spawn that hides it again. The audio code does not touch any of these and is left out.

  \<open>score\<close>, \<open>timeLeft\<close> and indices are modelled as unbounded integers (the code
  keeps them far below \<open>2^53\<close>, where a double counts exactly). A result of
  \<open>Math.random()\<close> is a double in \<open>[0, 1)\<close>, and its product with the number of empty
  holes is the IEEE product, rounded to 53 bits. Time is not modelled: timers fire in any
  order, and any event may fall between two renders. React is modelled as in a production
  build, where an updater function and an effect run once (the double invocation of
  \<open>StrictMode\<close> in development is left out), and the component is never unmounted.
\<close>

subsection \<open>Constants and cell contents\<close>

definition GAME_DURATION :: int where
  "GAME_DURATION = 60"

definition GRID_SIZE :: nat where
  "GRID_SIZE = 9"

text \<open>
  \<^verbatim>\<open>const BOMB_CHANCE = 0.2\<close>: the literal is the double nearest to \<open>1/5\<close>,
  \<open>0x3FC999999999999A\<close>, which is \<open>3602879701896397 / 2^54\<close>.
\<close>

definition BOMB_CHANCE :: real where
  "BOMB_CHANCE = 3602879701896397 / 2 ^ 54"

text \<open>\<^verbatim>\<open>type HoleContent = 'empty' | 'mole' | 'bomb'\<close>\<close>

datatype HoleContent = Empty | Mole | Bomb

text \<open>The values of \<open>gameOverReason\<close> other than \<open>null\<close>: \<^verbatim>\<open>'time' | 'bomb'\<close>.\<close>

datatype OverReason = Time | BombHit

subsection \<open>JavaScript arrays of hole contents\<close>

text \<open>
  \<open>holeContents\<close> is a JavaScript array. Reading an index that is not there gives
  \<open>undefined\<close>; writing at an array index past the end extends the array, leaving holes
  in between; writing at a key that is no array index (a negative number, or a number above
  \<open>2^32 - 2\<close>) adds an ordinary property and leaves \<open>length\<close> alone. \<open>elems\<close> are the
  indexed elements, \<open>None\<close> standing for a hole or \<open>undefined\<close> (the code never tells
  them apart: a read gives \<open>undefined\<close> for both, and \<open>map\<close>/\<open>filter\<close> drop both in
  \<open>emptyHolesIndexes\<close>); \<open>props\<close> are the other integer-keyed properties.
\<close>

record HoleArray =
  elems :: "HoleContent option list"
  props :: "(int \<times> HoleContent) list"

definition MAX_ARRAY_INDEX :: int where
  "MAX_ARRAY_INDEX = 4294967294"

definition js_length :: "HoleArray \<Rightarrow> int" where
  "js_length a = int (length (elems a))"

text \<open>\<open>a[i]\<close>; \<open>None\<close> is \<open>undefined\<close>.\<close>

definition js_get :: "HoleArray \<Rightarrow> int \<Rightarrow> HoleContent option" where
  "js_get a i =
     (if 0 \<le> i \<and> i \<le> MAX_ARRAY_INDEX
      then (if i < js_length a then elems a ! nat i else None)
      else map_of (props a) i)"

text \<open>\<open>a[i] = v\<close>, on the array \<open>a\<close> itself.\<close>

definition js_set :: "HoleArray \<Rightarrow> int \<Rightarrow> HoleContent \<Rightarrow> HoleArray" where
  "js_set a i v =
     (if 0 \<le> i \<and> i \<le> MAX_ARRAY_INDEX
      then (if i < js_length a
            then a\<lparr>elems := (elems a)[nat i := Some v]\<rparr>
            else a\<lparr>elems := elems a @ replicate (nat i - length (elems a)) None @ [Some v]\<rparr>)
      else a\<lparr>props := (i, v) # filter (\<lambda>p. fst p \<noteq> i) (props a)\<rparr>)"

text \<open>\<open>[...a]\<close>: a new array of the indexed elements; other properties are not copied.\<close>

definition js_spread :: "HoleArray \<Rightarrow> HoleArray" where
  "js_spread a = \<lparr>elems = elems a, props = []\<rparr>"

text \<open>\<^verbatim>\<open>new Array(GRID_SIZE).fill('empty')\<close>\<close>

definition emptyGrid :: HoleArray where
  "emptyGrid = \<lparr>elems = replicate GRID_SIZE (Some Empty), props = []\<rparr>"

subsection \<open>Doubles in \<open>[0, 1)\<close> and their product with a length\<close>

text \<open>
  \<open>Draw m k\<close> is the number \<open>m / 2^k\<close>. The doubles in \<open>[0, 1)\<close> are exactly these
  numbers with \<open>m\<close> of at most 53 bits (the significand), \<open>m < 2^k\<close> (below 1) and
  \<open>k \<le> 1074\<close> (the smallest exponent).
\<close>

datatype draw = Draw nat nat

fun draw_value :: "draw \<Rightarrow> real" where
  "draw_value (Draw m k) = real m / 2 ^ k"

text \<open>The number of bits of a natural number.\<close>

fun bitLength :: "nat \<Rightarrow> nat" where
  "bitLength n = (if n = 0 then 0 else Suc (bitLength (n div 2)))"

declare bitLength.simps [simp del]

fun unit_draw :: "draw \<Rightarrow> bool" where
  "unit_draw (Draw m k) \<longleftrightarrow> bitLength m \<le> 53 \<and> m < 2 ^ k \<and> k \<le> 1074"

text \<open>
  Rounding a natural number to 53 significant bits, to the nearest and, halfway between
  two, to the one with an even significand: with \<open>s\<close> the number of bits beyond 53, the
  number is \<open>q * 2^s + r\<close> and becomes \<open>q * 2^s\<close> or \<open>(q + 1) * 2^s\<close>.
\<close>

definition round53 :: "nat \<Rightarrow> nat" where
  "round53 M =
     (let L = bitLength M
      in if L \<le> 53 then M
         else
           let s = L - 53; q = M div 2 ^ s; r = M mod 2 ^ s; h = 2 ^ (s - 1)
           in (if h < r \<or> (r = h \<and> odd q) then q + 1 else q) * 2 ^ s)"

text \<open>
  \<open>d * n\<close> for a double \<open>d\<close> in \<open>[0, 1)\<close> and a length \<open>n\<close>, as JavaScript computes
  it: the exact product \<open>m * n / 2^k\<close> rounded to the nearest double. The product of a
  multiple of \<open>2^-k\<close> and an integer neither overflows nor loses bits to underflow, so
  rounding the numerator to 53 bits is all there is.
\<close>

fun mul_double :: "draw \<Rightarrow> nat \<Rightarrow> real" where
  "mul_double (Draw m k) n = real (round53 (m * n)) / 2 ^ k"

subsection \<open>The state of the component and of its timers\<close>

text \<open>
  What a render shows and what the callbacks it creates capture: the values of
  \<open>holeContents\<close>, \<open>isActive\<close>, \<open>timeLeft\<close> and \<open>gameOverReason\<close> at that render.
\<close>

record Rendered =
  holeContents_r :: HoleArray
  isActive_r :: bool
  timeLeft_r :: int
  gameOverReason_r :: "OverReason option"

text \<open>
  The state holds the React state (with every update made so far applied), the ref
  \<open>moleTimeouts\<close>, the values of the last committed render, and what the browser knows
  about the component's timers: \<open>timeouts\<close> are the pending hide timeouts, each with its
  handle and the \<open>randomIndex\<close> and \<open>content\<close> its callback captured; \<open>nextHandle\<close>
  is the handle the next \<open>setTimeout\<close> returns; \<open>popInterval\<close> says whether the spawn
  interval is registered and \<open>timerId\<close> whether the one-second countdown timeout is
  pending.
\<close>

record Game =
  score :: int
  timeLeft :: int
  isActive :: bool
  holeContents :: HoleArray
  gameOverReason :: "OverReason option"
  moleTimeouts :: "nat list"
  rendered :: Rendered
  timeouts :: "(nat \<times> int \<times> HoleContent) list"
  nextHandle :: nat
  popInterval :: bool
  timerId :: bool

text \<open>The values a render of the state \<open>s\<close> shows.\<close>

definition renderOf :: "Game \<Rightarrow> Rendered" where
  "renderOf s = \<lparr>holeContents_r = holeContents s, isActive_r = isActive s,
     timeLeft_r = timeLeft s, gameOverReason_r = gameOverReason s\<rparr>"

text \<open>The state after the first render: the initial values of \<open>useState\<close> and \<open>useRef\<close>.\<close>

definition initial :: Game where
  "initial = \<lparr>score = 0, timeLeft = GAME_DURATION, isActive = False, holeContents = emptyGrid,
     gameOverReason = None, moleTimeouts = [],
     rendered = \<lparr>holeContents_r = emptyGrid, isActive_r = False,
       timeLeft_r = GAME_DURATION, gameOverReason_r = None\<rparr>,
     timeouts = [], nextHandle = 0, popInterval = False, timerId = False\<rparr>"

text \<open>\<open>hs.forEach(clearTimeout)\<close>: the pending timeouts with a handle in \<open>hs\<close> are cancelled.\<close>

definition clearTimeouts :: "nat list \<Rightarrow> (nat \<times> int \<times> HoleContent) list \<Rightarrow> (nat \<times> int \<times> HoleContent) list" where
  "clearTimeouts hs ts = filter (\<lambda>t. fst t \<notin> set hs) ts"

subsection \<open>The handlers\<close>

text \<open>\<open>startGame\<close> (lines 217-223).\<close>

definition startGame :: "Game \<Rightarrow> Game" where
  "startGame s = s\<lparr>score := 0, timeLeft := GAME_DURATION, isActive := True,
     gameOverReason := None, holeContents := emptyGrid\<rparr>"

text \<open>
  \<open>whackItem\<close> (lines 225-244). The callback reads \<open>holeContents\<close> and \<open>isActive\<close> from
  the render that created it (the arguments \<open>holeContents_c\<close>, \<open>isActive_c\<close>: its
  dependencies in \<open>useCallback\<close>), while its two updates are functions of the latest
  state \<open>s\<close>.
\<close>

definition whackItem :: "HoleArray \<Rightarrow> bool \<Rightarrow> int \<Rightarrow> Game \<Rightarrow> Game" where
  "whackItem holeContents_c isActive_c index s =
     (if js_get holeContents_c index = Some Empty \<or> \<not> isActive_c then s
      else
        let content = js_get holeContents_c index;
            s1 = (if content = Some Mole then s\<lparr>score := score s + 10\<rparr>
                  else if content = Some Bomb then s\<lparr>score := score s - 10\<rparr>
                  else s)
        in s1\<lparr>holeContents := js_set (js_spread (holeContents s1)) index Empty\<rparr>)"

text \<open>\<open>emptyHolesIndexes\<close> (lines 178-180).\<close>

definition emptyHolesIndexes :: "HoleArray \<Rightarrow> int list" where
  "emptyHolesIndexes currentHoles =
     filter (\<lambda>index. index \<noteq> - 1)
       (map (\<lambda>(content, index). if content = Some Empty then int index else - 1)
          (zip (elems currentHoles) [0 ..< length (elems currentHoles)]))"

text \<open>
  The rest of the spawn (lines 191-205) once \<open>randomIndex\<close> and \<open>content\<close> are chosen:
  the cell is written in a copy of the array, the hide timeout is set and its handle is
  pushed on \<open>moleTimeouts\<close>.
\<close>

definition spawnAt :: "int \<Rightarrow> HoleContent \<Rightarrow> Game \<Rightarrow> Game" where
  "spawnAt randomIndex content s =
     (let newContents = js_set (js_spread (holeContents s)) randomIndex content;
          hideTimeout = nextHandle s
      in s\<lparr>holeContents := newContents,
            timeouts := timeouts s @ [(hideTimeout, randomIndex, content)],
            nextHandle := Suc hideTimeout,
            moleTimeouts := moleTimeouts s @ [hideTimeout]\<rparr>)"

text \<open>
  Line 186, \<^verbatim>\<open>emptyHolesIndexes[Math.floor(Math.random() * emptyHolesIndexes.length)]\<close>,
  for the random number \<open>r1\<close>; and lines 188-189, the content for the random number \<open>r2\<close>.
\<close>

definition randomIndexOf :: "draw \<Rightarrow> int list \<Rightarrow> int" where
  "randomIndexOf r1 emptyIdx = emptyIdx ! nat \<lfloor>mul_double r1 (length emptyIdx)\<rfloor>"

definition contentOf :: "draw \<Rightarrow> HoleContent" where
  "contentOf r2 = (let isBomb = (draw_value r2 < BOMB_CHANCE) in if isBomb then Bomb else Mole)"

text \<open>
  The callback of \<open>popInterval\<close> (lines 176-207); \<open>r1\<close> and \<open>r2\<close> are the results of its
  two calls of \<open>Math.random()\<close>, in order.
\<close>

definition popUpdater :: "draw \<Rightarrow> draw \<Rightarrow> Game \<Rightarrow> Game" where
  "popUpdater r1 r2 s =
     (let currentHoles = holeContents s;
          emptyIdx = emptyHolesIndexes currentHoles
      in if length emptyIdx = 0 then s
         else
           let randomIndex = randomIndexOf r1 emptyIdx;
               content = contentOf r2
           in spawnAt randomIndex content s)"

text \<open>The update made by a hide timeout (lines 195-201).\<close>

definition hideUpdater :: "int \<Rightarrow> HoleContent \<Rightarrow> HoleArray \<Rightarrow> HoleArray" where
  "hideUpdater randomIndex content prev =
     (let updatedContents = js_spread prev
      in if js_get updatedContents randomIndex = Some content
         then js_set updatedContents randomIndex Empty
         else updatedContents)"

subsection \<open>The effects\<close>

text \<open>
  The game timer effect (lines 152-170), with dependencies \<open>isActive\<close>, \<open>timeLeft\<close>,
  \<open>gameOverReason\<close>. Its body reads the values of the render \<open>r\<close> it belongs to and
  updates the state \<open>s\<close>; its cleanup clears the countdown timeout.
\<close>

definition gameTimerEffect :: "Rendered \<Rightarrow> Game \<Rightarrow> Game" where
  "gameTimerEffect r s =
     (if \<not> isActive_r r then s
      else if timeLeft_r r \<le> 0 then
        s\<lparr>isActive := False,
          timeouts := clearTimeouts (moleTimeouts s) (timeouts s),
          holeContents := emptyGrid,
          gameOverReason := (if gameOverReason_r r = None then Some Time else gameOverReason s)\<rparr>
      else s\<lparr>timerId := True\<rparr>)"

definition gameTimerCleanup :: "Game \<Rightarrow> Game" where
  "gameTimerCleanup s = s\<lparr>timerId := False\<rparr>"

text \<open>The popping effect (lines 173-214), with dependency \<open>isActive\<close>, and its cleanup.\<close>

definition poppingEffect :: "Rendered \<Rightarrow> Game \<Rightarrow> Game" where
  "poppingEffect r s = (if \<not> isActive_r r then s else s\<lparr>popInterval := True\<rparr>)"

definition poppingCleanup :: "Game \<Rightarrow> Game" where
  "poppingCleanup s = s\<lparr>popInterval := False,
     timeouts := clearTimeouts (moleTimeouts s) (timeouts s),
     moleTimeouts := []\<rparr>"

text \<open>
  The effects of one commit: \<open>old\<close> are the values of the previous render, \<open>r\<close> those of
  the render being committed, \<open>s\<close> the state. An effect runs again when one of its
  dependencies changed; then the cleanup its last run returned runs first. The game timer
  effect returned a cleanup when it armed the timeout (\<open>isActive\<close> and \<open>timeLeft > 0\<close>),
  the popping effect when \<open>isActive\<close> held. All cleanups run before all bodies, each in the
  order of declaration.
\<close>

definition commitEffects :: "Rendered \<Rightarrow> Rendered \<Rightarrow> Game \<Rightarrow> Game" where
  "commitEffects old r s =
     (let timerDeps = (isActive_r old \<noteq> isActive_r r \<or> timeLeft_r old \<noteq> timeLeft_r r
                        \<or> gameOverReason_r old \<noteq> gameOverReason_r r);
          popDeps = (isActive_r old \<noteq> isActive_r r);
          s1 = (if timerDeps \<and> isActive_r old \<and> 0 < timeLeft_r old then gameTimerCleanup s else s);
          s2 = (if popDeps \<and> isActive_r old then poppingCleanup s1 else s1);
          s3 = (if timerDeps then gameTimerEffect r s2 else s2);
          s4 = (if popDeps then poppingEffect r s3 else s3)
      in s4)"

text \<open>
  A render of the current state and its commit: the effects run, and the callbacks of the
  component are from now on those of this render. What the expiry branch of the game timer
  effect sets is state like any other: it shows at the next render, and the cleanup of
  the popping effect, which clears the spawn interval, runs at that next commit.
\<close>

definition render :: "Game \<Rightarrow> Game" where
  "render s = (commitEffects (rendered s) (renderOf s) s)\<lparr>rendered := renderOf s\<rparr>"

subsection \<open>Events\<close>

text \<open>
  What can happen to the component: a click on the start button, a click on the hole at
  an index, the countdown timeout, a tick of the spawn interval (with the two random
  numbers it draws), a hide timeout (with its handle), and a render with its commit. The
  events come in any order; in particular a timer or a click may fall between an update of
  the state and the render that shows it. A click runs the handler of the last committed
  render: the start button is disabled when that render had \<open>isActive\<close>, and
  \<open>whackItem\<close> reads what that render captured. An updater is applied to the state when
  its event happens (React may run it as late as the next render, in the same order). An
  event that cannot happen in a state leaves it as it is: a timer that is not pending does
  not fire, and \<open>Math.random()\<close> returns a double in \<open>[0, 1)\<close>.
\<close>

datatype event =
    StartClick
  | HoleClick int
  | ClockTimeout
  | PopTick draw draw
  | HideTimeout nat
  | Render

fun step :: "event \<Rightarrow> Game \<Rightarrow> Game" where
  "step StartClick s = (if isActive_r (rendered s) then s else startGame s)"
| "step (HoleClick index) s =
     whackItem (holeContents_r (rendered s)) (isActive_r (rendered s)) index s"
| "step ClockTimeout s =
     (if timerId s then s\<lparr>timerId := False, timeLeft := timeLeft s - 1\<rparr> else s)"
| "step (PopTick r1 r2) s =
     (if popInterval s \<and> unit_draw r1 \<and> unit_draw r2 then popUpdater r1 r2 s else s)"
| "step (HideTimeout h) s =
     (case find (\<lambda>t. fst t = h) (timeouts s) of
        None \<Rightarrow> s
      | Some (_, randomIndex, content) \<Rightarrow>
          s\<lparr>timeouts := filter (\<lambda>t. fst t \<noteq> h) (timeouts s),
            holeContents := hideUpdater randomIndex content (holeContents s)\<rparr>)"
| "step Render s = render s"

text \<open>The events of a list, first to last.\<close>

fun run :: "event list \<Rightarrow> Game \<Rightarrow> Game" where
  "run [] s = s"
| "run (e # es) s = run es (step e s)"

text \<open>\<open>n\<close> seconds of the countdown, each shown by a render.\<close>

definition seconds :: "nat \<Rightarrow> event list" where
  "seconds n = concat (replicate n [ClockTimeout, Render])"

subsection \<open>Properties of states\<close>

text \<open>
  What holds of every state the component can reach (lemma \<open>wellFormed_reachable\<close>).
  \<open>timersTracked\<close>: the handle of every pending hide timeout is in \<open>moleTimeouts\<close> and
  was handed out before. \<open>gridOk\<close>: the array has its nine cells, each with a content, and
  a length a JavaScript array can have. \<open>wellFormed\<close> adds that the end cause is never
  \<open>'bomb'\<close> and is \<open>null\<close> while a session runs, that \<open>timeLeft\<close> is between 0 and
  60, and that time is left while the countdown is pending.
\<close>

definition timersTracked :: "Game \<Rightarrow> bool" where
  "timersTracked s \<longleftrightarrow>
     (\<forall>t \<in> set (timeouts s). fst t \<in> set (moleTimeouts s) \<and> fst t < nextHandle s)"

definition gridOk :: "HoleArray \<Rightarrow> bool" where
  "gridOk h \<longleftrightarrow>
     GRID_SIZE \<le> length (elems h) \<and> js_length h \<le> MAX_ARRAY_INDEX + 1
     \<and> (\<forall>i < GRID_SIZE. elems h ! i \<noteq> None)"

definition wellFormed :: "Game \<Rightarrow> bool" where
  "wellFormed s \<longleftrightarrow>
     timersTracked s \<and> gridOk (holeContents s)
     \<and> gameOverReason s \<noteq> Some BombHit
     \<and> (isActive s \<longrightarrow> gameOverReason s = None)
     \<and> 0 \<le> timeLeft s \<and> timeLeft s \<le> GAME_DURATION
     \<and> (timerId s \<longrightarrow> 0 < timeLeft s)"

text \<open>
  The changes of one cell that the specification allows in one step: none,
  Empty to Mole or Bomb, and Mole or Bomb to Empty.
\<close>

definition allowedMove :: "HoleContent option \<Rightarrow> HoleContent option \<Rightarrow> bool" where
  "allowedMove a b \<longleftrightarrow>
     b = a
     \<or> (a = Some Empty \<and> (b = Some Mole \<or> b = Some Bomb))
     \<or> ((a = Some Mole \<or> a = Some Bomb) \<and> b = Some Empty)"

subsection \<open>An example state\<close>

text \<open>
  A running session with a mole in cell 0 and a bomb in cell 1, its render up to date,
  used to evaluate the theorems below at a concrete state.
\<close>

definition demoGrid :: HoleArray where
  "demoGrid = \<lparr>elems = [Some Mole, Some Bomb, Some Empty, Some Empty, Some Empty,
      Some Empty, Some Empty, Some Empty, Some Empty], props = []\<rparr>"

definition demo :: Game where
  "demo = \<lparr>score = 0, timeLeft = 60, isActive = True, holeContents = demoGrid,
     gameOverReason = None, moleTimeouts = [],
     rendered = \<lparr>holeContents_r = demoGrid, isActive_r = True, timeLeft_r = 60,
       gameOverReason_r = None\<rparr>,
     timeouts = [], nextHandle = 0, popInterval = True, timerId = True\<rparr>"

lemmas demo_defs = demo_def demoGrid_def initial_def GAME_DURATION_def emptyGrid_def
  GRID_SIZE_def js_get_def js_length_def MAX_ARRAY_INDEX_def

section \<open>Arrays\<close>

lemma js_get_Some_in_range:
  "0 \<le> i \<Longrightarrow> i \<le> MAX_ARRAY_INDEX \<Longrightarrow> js_get a i = Some c \<Longrightarrow> i < js_length a"
  by (simp add: js_get_def split: if_splits)

lemma js_length_spread [simp]: "js_length (js_spread a) = js_length a"
  by (simp add: js_length_def js_spread_def)

lemma elems_spread [simp]: "elems (js_spread a) = elems a"
  by (simp add: js_spread_def)

lemma props_spread [simp]: "props (js_spread a) = []"
  by (simp add: js_spread_def)

lemma js_get_spread:
  "0 \<le> i \<Longrightarrow> i \<le> MAX_ARRAY_INDEX \<Longrightarrow> js_get (js_spread a) i = js_get a i"
  by (simp add: js_get_def js_length_def)

lemma js_get_set_same: "js_get (js_set a i v) i = Some v"
  by (auto simp: js_get_def js_set_def js_length_def nth_append)

lemma js_get_set_other:
  "0 \<le> j \<Longrightarrow> j \<le> MAX_ARRAY_INDEX \<Longrightarrow> j \<noteq> i \<Longrightarrow> js_get (js_set a i v) j = js_get a j"
  by (auto simp: js_get_def js_set_def js_length_def nth_append nat_eq_iff2)

lemma js_length_set_in_range:
  "0 \<le> c \<Longrightarrow> c < js_length a \<Longrightarrow> js_length (js_set a c v) = js_length a"
  by (simp add: js_set_def js_length_def)

section \<open>Rounding to a double\<close>

lemma bitLength_upper: "n < 2 ^ bitLength n"
proof (induction n rule: bitLength.induct)
  case (1 n)
  show ?case
  proof (cases "n = 0")
    case True
    then show ?thesis by (simp add: bitLength.simps)
  next
    case False
    with 1 have "n div 2 < 2 ^ bitLength (n div 2)" by simp
    then have "n < 2 * 2 ^ bitLength (n div 2)" by linarith
    with False show ?thesis by (simp add: bitLength.simps [of n])
  qed
qed

lemma bitLength_lower: "0 < n \<Longrightarrow> 2 ^ (bitLength n - 1) \<le> n"
proof (induction n rule: bitLength.induct)
  case (1 n)
  then have pos: "n \<noteq> 0" by simp
  show ?case
  proof (cases "n div 2 = 0")
    case True
    with pos show ?thesis
      by (simp add: bitLength.simps [of n] bitLength.simps [of 0])
  next
    case False
    with 1 pos have ih: "2 ^ (bitLength (n div 2) - 1) \<le> n div 2" by simp
    from False have "bitLength (n div 2) \<noteq> 0"
      by (simp add: bitLength.simps [of "n div 2"])
    then have "(2::nat) ^ bitLength (n div 2) = 2 * 2 ^ (bitLength (n div 2) - 1)"
      by (cases "bitLength (n div 2)") simp_all
    with ih have "2 ^ bitLength (n div 2) \<le> n" by linarith
    with pos show ?thesis by (simp add: bitLength.simps [of n])
  qed
qed

lemma bitLength_le_iff: "bitLength n \<le> j \<longleftrightarrow> n < 2 ^ j"
proof
  assume "bitLength n \<le> j"
  then have "(2::nat) ^ bitLength n \<le> 2 ^ j" by simp
  with bitLength_upper [of n] show "n < 2 ^ j" by linarith
next
  assume less: "n < 2 ^ j"
  show "bitLength n \<le> j"
  proof (cases "n = 0")
    case True
    then show ?thesis by (simp add: bitLength.simps)
  next
    case False
    then have "2 ^ (bitLength n - 1) \<le> n" using bitLength_lower [of n] by simp
    with less have "(2::nat) ^ (bitLength n - 1) < 2 ^ j" by linarith
    then have "bitLength n - 1 < j" by simp
    then show ?thesis by linarith
  qed
qed

lemma unit_draw_iff: "unit_draw (Draw m k) \<longleftrightarrow> m < 2 ^ 53 \<and> m < 2 ^ k \<and> k \<le> 1074"
  by (simp add: bitLength_le_iff)

text \<open>What rounding does to a number of more than 53 bits.\<close>

lemma round53_cases:
  obtains (exact) "round53 M = M"
  | (rounded) s q r where "0 < s" and "2 ^ (s - 1) * 2 ^ 53 \<le> M" and "M = q * 2 ^ s + r"
      and "r < 2 ^ s"
      and "round53 M = q * 2 ^ s \<or> (round53 M = (q + 1) * 2 ^ s \<and> 2 ^ (s - 1) \<le> r)"
proof (cases "bitLength M \<le> 53")
  case True
  then have "round53 M = M" by (simp add: round53_def)
  then show ?thesis by (rule exact)
next
  case False
  define s where "s = bitLength M - 53"
  define q where "q = M div 2 ^ s"
  define r where "r = M mod 2 ^ s"
  from False have s: "0 < s" and L: "bitLength M - 1 = (s - 1) + 53"
    by (simp_all add: s_def)
  from False have "0 < M" by (cases "M = 0") (simp_all add: bitLength.simps)
  then have "2 ^ (bitLength M - 1) \<le> M" by (rule bitLength_lower)
  then have low: "2 ^ (s - 1) * 2 ^ 53 \<le> M" by (simp only: L power_add)
  have split: "M = q * 2 ^ s + r"
    unfolding q_def r_def by (rule div_mult_mod_eq [symmetric])
  have r: "r < 2 ^ s"
    by (simp add: r_def)
  have "round53 M = (if 2 ^ (s - 1) < r \<or> (r = 2 ^ (s - 1) \<and> odd q) then q + 1 else q) * 2 ^ s"
    using False by (simp add: round53_def Let_def s_def q_def r_def)
  then have "round53 M = q * 2 ^ s \<or> (round53 M = (q + 1) * 2 ^ s \<and> 2 ^ (s - 1) \<le> r)"
    by (auto split: if_splits)
  with s low split r show ?thesis by (rule rounded)
qed

lemma grid_below:
  fixes a q r c :: nat
  assumes "a * c \<le> q * c + r" and "r < c"
  shows "a \<le> q"
proof (rule ccontr)
  assume "\<not> a \<le> q"
  then have "q + 1 \<le> a" by simp
  then have "(q + 1) * c \<le> a * c" by (rule mult_le_mono1)
  with assms show False by (simp add: algebra_simps)
qed

text \<open>Rounding does not go below a multiple of \<open>2^k\<close> that the number has reached.\<close>

lemma round53_ge_grid:
  assumes "G * 2 ^ k \<le> M" and "M < 2 ^ 53 * 2 ^ k"
  shows "G * 2 ^ k \<le> round53 M"
proof (cases M rule: round53_cases)
  case exact
  with assms(1) show ?thesis by simp
next
  case (rounded s q r)
  from rounded(2) assms(2) have "(2::nat) ^ (s - 1) * 2 ^ 53 < 2 ^ 53 * 2 ^ k" by linarith
  then have "(2::nat) ^ (s - 1) < 2 ^ k" by simp
  then have "s - 1 < k" by simp
  with rounded(1) have sk: "s \<le> k" by linarith
  then have pk: "(2::nat) ^ k = 2 ^ (k - s) * 2 ^ s"
    by (simp add: power_add [symmetric])
  have "G * 2 ^ (k - s) * 2 ^ s \<le> q * 2 ^ s + r"
    using assms(1) rounded(3) by (simp add: pk mult.assoc)
  then have "G * 2 ^ (k - s) \<le> q"
    using rounded(4) by (rule grid_below)
  then have "G * 2 ^ (k - s) * 2 ^ s \<le> q * 2 ^ s" by (rule mult_le_mono1)
  then have "G * 2 ^ k \<le> q * 2 ^ s" by (simp add: pk mult.assoc)
  with rounded(5) show ?thesis by auto
qed

text \<open>The rounding error is at most the number over \<open>2^53\<close>.\<close>

lemma round53_error: "round53 M * 2 ^ 53 \<le> M * (2 ^ 53 + 1)"
proof (cases M rule: round53_cases)
  case exact
  then show ?thesis by simp
next
  case (rounded s q r)
  from rounded(1) have two: "(2::nat) ^ s = 2 * 2 ^ (s - 1)"
    by (cases s) simp_all
  from rounded(5) have "round53 M \<le> M + 2 ^ (s - 1)"
  proof
    assume "round53 M = q * 2 ^ s"
    with rounded(3) show ?thesis by simp
  next
    assume up: "round53 M = (q + 1) * 2 ^ s \<and> 2 ^ (s - 1) \<le> r"
    then have "round53 M = q * 2 ^ s + 2 * 2 ^ (s - 1)" by (simp add: two)
    with up rounded(3) show ?thesis by linarith
  qed
  then have "round53 M * 2 ^ 53 \<le> (M + 2 ^ (s - 1)) * 2 ^ 53" by (rule mult_le_mono1)
  also have "\<dots> = M * 2 ^ 53 + 2 ^ (s - 1) * 2 ^ 53" by (simp add: algebra_simps)
  also have "\<dots> \<le> M * 2 ^ 53 + M" using rounded(2) by simp
  finally show ?thesis by (simp add: algebra_simps)
qed

lemma floor_mul_double: "\<lfloor>mul_double (Draw m k) n\<rfloor> = int (round53 (m * n) div 2 ^ k)"
proof -
  have "mul_double (Draw m k) n = real (round53 (m * n)) / real (2 ^ k)"
    by simp
  then show ?thesis
    by (simp only: floor_divide_of_nat_eq)
qed

lemma floor_exact: "\<lfloor>draw_value (Draw m k) * real n\<rfloor> = int (m * n div 2 ^ k)"
proof -
  have "draw_value (Draw m k) * real n = real (m * n) / real (2 ^ k)"
    by simp
  then show ?thesis
    by (simp only: floor_divide_of_nat_eq)
qed

lemma unit_drawD:
  assumes "unit_draw (Draw m k)"
  shows "m < 2 ^ 53" and "m < 2 ^ k"
  using assms by (simp_all only: unit_draw_iff)

lemma product_bound:
  assumes "unit_draw (Draw m k)" and "n < 2 ^ 53"
  shows "m * n < 2 ^ 53 * 2 ^ k"
proof -
  from assms(1) have "m < 2 ^ k" by (rule unit_drawD)
  then have "m * n \<le> 2 ^ k * n" by simp
  also have "\<dots> < 2 ^ k * 2 ^ 53" using assms(2) by simp
  finally show ?thesis by (simp add: mult.commute)
qed

text \<open>The rounded product stays below \<open>n\<close>.\<close>

lemma round53_below:
  assumes "unit_draw (Draw m k)" and "0 < n"
  shows "round53 (m * n) < n * 2 ^ k"
proof -
  let ?b = "2 ^ 53 :: nat"
  from assms(1) have m: "m < ?b" "m < 2 ^ k" by (rule unit_drawD)+
  have "m * (?b + 1) = m * ?b + m" by (simp add: algebra_simps)
  also have "\<dots> < m * ?b + ?b" using m(1) by simp
  also have "\<dots> = (m + 1) * ?b" by (simp add: algebra_simps)
  also have "\<dots> \<le> 2 ^ k * ?b" using m(2) by (intro mult_le_mono1) simp
  finally have "m * (?b + 1) < 2 ^ k * ?b" .
  then have "n * (m * (?b + 1)) < n * (2 ^ k * ?b)" using assms(2) by simp
  then have "m * n * (?b + 1) < n * 2 ^ k * ?b" by (simp add: mult_ac)
  with round53_error [of "m * n"] have "round53 (m * n) * ?b < n * 2 ^ k * ?b"
    by (rule le_less_trans)
  then show ?thesis by simp
qed

lemma slot_in_range:
  assumes "unit_draw d" and "0 < n"
  shows "nat \<lfloor>mul_double d n\<rfloor> < n"
proof (cases d)
  case (Draw m k)
  with assms have "round53 (m * n) < n * 2 ^ k" by (simp only: round53_below)
  then have "round53 (m * n) div 2 ^ k < n" by (rule less_mult_imp_div_less)
  with Draw show ?thesis by (simp only: floor_mul_double nat_int)
qed

lemma slot_not_below:
  assumes "unit_draw d" and "n < 2 ^ 53"
  shows "nat \<lfloor>draw_value d * real n\<rfloor> \<le> nat \<lfloor>mul_double d n\<rfloor>"
proof (cases d)
  case (Draw m k)
  let ?M = "m * n"
  have "?M div 2 ^ k * 2 ^ k \<le> ?M" by simp
  moreover from assms Draw have "?M < 2 ^ 53 * 2 ^ k" by (simp only: product_bound)
  ultimately have "?M div 2 ^ k * 2 ^ k \<le> round53 ?M" by (rule round53_ge_grid)
  then have "?M div 2 ^ k \<le> round53 ?M div 2 ^ k"
    by (simp add: less_eq_div_iff_mult_less_eq)
  with Draw show ?thesis by (simp only: floor_mul_double floor_exact nat_int)
qed

lemma mul_double_error:
  "mul_double d n \<le> draw_value d * real n * (1 + 1 / 2 ^ 53)"
proof (cases d)
  case (Draw m k)
  define b :: real where "b = 2 ^ 53"
  define R where "R = real (round53 (m * n))"
  define M where "M = real (m * n)"
  have b: "0 < b" by (simp add: b_def)
  have "real (round53 (m * n) * 2 ^ 53) \<le> real (m * n * (2 ^ 53 + 1))"
    using round53_error [of "m * n"] by (simp only: of_nat_le_iff)
  then have "R * b \<le> M * (b + 1)"
    by (simp add: R_def M_def b_def)
  then have "R \<le> M * (b + 1) / b"
    using b by (simp add: pos_le_divide_eq)
  also have "M * (b + 1) / b = M * (1 + 1 / b)"
    using b by (simp add: field_simps)
  finally have "R / 2 ^ k \<le> M * (1 + 1 / b) / 2 ^ k"
    by (rule divide_right_mono) simp
  then show ?thesis
    by (simp add: Draw R_def M_def b_def)
qed

lemma bomb_threshold_nat:
  fixes m k :: nat
  assumes "m < 2 ^ 53"
  shows "m * 2 ^ 54 < 3602879701896397 * 2 ^ k \<longleftrightarrow> 5 * m < 2 ^ k"
proof
  assume "5 * m < 2 ^ k"
  then have "5 * m + 1 \<le> 2 ^ k" by simp
  then have "(5 * m + 1) * 3602879701896397 \<le> 2 ^ k * 3602879701896397"
    by (rule mult_le_mono1)
  then show "m * 2 ^ 54 < 3602879701896397 * 2 ^ k" by simp
next
  assume less: "m * 2 ^ 54 < 3602879701896397 * 2 ^ k"
  show "5 * m < 2 ^ k"
  proof (rule ccontr)
    assume "\<not> 5 * m < 2 ^ k"
    then have ge: "2 ^ k \<le> 5 * m" by simp
    show False
    proof (cases "k \<le> 54")
      case True
      define c :: nat where "c = 2 ^ (54 - k)"
      from True have p: "(2::nat) ^ 54 = c * 2 ^ k"
        by (simp add: c_def power_add [symmetric])
      from less have "m * c * 2 ^ k < 3602879701896397 * 2 ^ k"
        by (simp only: p mult.assoc)
      then have t: "m * c < 3602879701896397" by simp
      from ge have "c * 2 ^ k \<le> c * (5 * m)" by (rule mult_le_mono2)
      then have "2 ^ 54 \<le> 5 * (m * c)" by (simp only: p [symmetric]) (simp add: mult_ac)
      with t show False by simp
    next
      case False
      then have "55 \<le> k" by simp
      then have "(2::nat) ^ 55 \<le> 2 ^ k" by (rule power_increasing) simp
      show False
      proof (cases "k = 55")
        case True
        with less ge show False by simp
      next
        case False
        with \<open>55 \<le> k\<close> have "56 \<le> k" by simp
        then have "(2::nat) ^ 56 \<le> 2 ^ k" by (rule power_increasing) simp
        with ge assms show False by simp
      qed
    qed
  qed
qed

text \<open>For a double, being below the literal \<open>0.2\<close> is being below one fifth.\<close>

lemma bomb_threshold:
  assumes "unit_draw d"
  shows "draw_value d < BOMB_CHANCE \<longleftrightarrow> draw_value d < 2 / 10"
proof (cases d)
  case (Draw m k)
  with assms have m: "m < 2 ^ 53" by (simp only: unit_drawD)
  have "draw_value d < BOMB_CHANCE \<longleftrightarrow> real m / 2 ^ k < 3602879701896397 / 2 ^ 54"
    by (simp add: Draw BOMB_CHANCE_def)
  also have "\<dots> \<longleftrightarrow> real m * 2 ^ 54 < 3602879701896397 * 2 ^ k"
    by (simp add: field_simps)
  also have "\<dots> \<longleftrightarrow> real (m * 2 ^ 54) < real (3602879701896397 * 2 ^ k)"
    by simp
  also have "\<dots> \<longleftrightarrow> m * 2 ^ 54 < 3602879701896397 * 2 ^ k"
    by (simp only: of_nat_less_iff)
  also have "\<dots> \<longleftrightarrow> 5 * m < 2 ^ k"
    by (rule bomb_threshold_nat [OF m])
  also have "\<dots> \<longleftrightarrow> real (5 * m) < real (2 ^ k)"
    by (simp only: of_nat_less_iff)
  also have "\<dots> \<longleftrightarrow> draw_value d < 2 / 10"
    by (simp add: Draw field_simps)
  finally show ?thesis .
qed

text \<open>
  Which slot the rounded product falls in: never below the slot of the exact product, and
  in slot \<open>k\<close> whenever the exact product is in \<open>[k, k + 1)\<close> and stays there
  when enlarged by its \<open>2^-53\<close>-th part.
\<close>

lemma slot_sandwich:
  assumes "unit_draw d" and "n < 2 ^ 53"
  shows "real (nat \<lfloor>mul_double d n\<rfloor>) \<le> draw_value d * real n * (1 + 1 / 2 ^ 53)"
    and "draw_value d * real n < real (nat \<lfloor>mul_double d n\<rfloor>) + 1"
proof -
  have nonneg: "0 \<le> mul_double d n" by (cases d) simp
  then have "real (nat \<lfloor>mul_double d n\<rfloor>) \<le> mul_double d n"
    by (simp add: of_nat_nat)
  with mul_double_error [of d n]
  show "real (nat \<lfloor>mul_double d n\<rfloor>) \<le> draw_value d * real n * (1 + 1 / 2 ^ 53)"
    by linarith
  have x: "0 \<le> draw_value d * real n" by (cases d) simp
  have "draw_value d * real n < real_of_int \<lfloor>draw_value d * real n\<rfloor> + 1"
    by linarith
  also have "real_of_int \<lfloor>draw_value d * real n\<rfloor> = real (nat \<lfloor>draw_value d * real n\<rfloor>)"
    using x by (simp add: of_nat_nat)
  also have "\<dots> \<le> real (nat \<lfloor>mul_double d n\<rfloor>)"
    using slot_not_below [OF assms] by (simp only: of_nat_le_iff)
  finally show "draw_value d * real n < real (nat \<lfloor>mul_double d n\<rfloor>) + 1"
    by simp
qed

lemma slot_chosen:
  assumes "unit_draw d" and "n < 2 ^ 53"
    and "real k \<le> draw_value d * real n"
    and "draw_value d * real n * (1 + 1 / 2 ^ 53) < real k + 1"
  shows "nat \<lfloor>mul_double d n\<rfloor> = k"
proof -
  let ?j = "nat \<lfloor>mul_double d n\<rfloor>"
  from slot_sandwich(1) [OF assms(1,2)] assms(4) have "real ?j < real k + 1" by linarith
  then have upper: "?j \<le> k" by linarith
  from slot_sandwich(2) [OF assms(1,2)] assms(3) have "real k < real ?j + 1" by linarith
  then have "k \<le> ?j" by linarith
  with upper show ?thesis by simp
qed

section \<open>Starting a session\<close>

lemma render_fields:
  "score (render s) = score s \<and> timeLeft (render s) = timeLeft s
   \<and> nextHandle (render s) = nextHandle s \<and> rendered (render s) = renderOf s"
  by (simp add: render_def commitEffects_def gameTimerEffect_def gameTimerCleanup_def
      poppingEffect_def poppingCleanup_def Let_def)

text \<open>
  C4: for every prior state, \<open>startGame\<close> sets the score to 0, the remaining time to 60,
  \<open>isActive\<close> to true and the end cause to none, and makes the grid nine Empty cells; when
  the start button is enabled (the last render had no session running), the click is
  \<open>startGame\<close>, and the same holds after the render that follows it.
\<close>

theorem startGame_resets:
  "score (startGame s) = 0 \<and> timeLeft (startGame s) = 60 \<and> isActive (startGame s)
   \<and> gameOverReason (startGame s) = None
   \<and> js_length (holeContents (startGame s)) = 9
   \<and> (\<forall>i. 0 \<le> i \<and> i < 9 \<longrightarrow> js_get (holeContents (startGame s)) i = Some Empty)
   \<and> (\<not> isActive_r (rendered s) \<longrightarrow>
        step StartClick s = startGame s
        \<and> score (run [StartClick, Render] s) = 0 \<and> timeLeft (run [StartClick, Render] s) = 60
        \<and> isActive (run [StartClick, Render] s)
        \<and> gameOverReason (run [StartClick, Render] s) = None
        \<and> holeContents (run [StartClick, Render] s) = holeContents (startGame s))"
  by (simp add: startGame_def GAME_DURATION_def emptyGrid_def GRID_SIZE_def js_length_def
      js_get_def MAX_ARRAY_INDEX_def render_def renderOf_def commitEffects_def
      gameTimerEffect_def gameTimerCleanup_def poppingEffect_def poppingCleanup_def
      Let_def nat_less_iff)

theorem startGame_resets_witness:
  "(0::int) \<le> 4 \<and> (4::int) < 9 \<and> js_get (holeContents (startGame demo)) 4 = Some Empty
   \<and> score (startGame demo) = 0 \<and> timeLeft (startGame demo) = 60
   \<and> \<not> isActive_r (rendered initial) \<and> isActive (run [StartClick, Render] initial)
   \<and> holeContents (run [StartClick, Render] initial) = holeContents (startGame initial)"
proof -
  have "\<not> isActive_r (rendered initial)"
    by (simp add: initial_def)
  then show ?thesis
    using startGame_resets [of demo] startGame_resets [of initial] by simp
qed

section \<open>Whacking\<close>

text \<open>
  C2, as the claim states it, fails when the render is behind the state: the handler
  decides on the contents its render captured. From the initial state: start, render, spawn
  a Mole at cell 0, render, and let the hide timeout of that mole fire. The session is
  running and cell 0 is Empty in the state, while the last render still shows the mole; a
  click on cell 0 now adds 10 to the score.
\<close>

theorem whack_scores_and_clears_counterexample:
  "isActive (run [StartClick, Render, PopTick (Draw 0 2) (Draw 2 2), Render, HideTimeout 0] initial)
   \<and> js_get (holeContents
         (run [StartClick, Render, PopTick (Draw 0 2) (Draw 2 2), Render, HideTimeout 0] initial)) 0
       = Some Empty
   \<and> score (run [StartClick, Render, PopTick (Draw 0 2) (Draw 2 2), Render, HideTimeout 0] initial)
       = 0
   \<and> score (step (HoleClick 0)
         (run [StartClick, Render, PopTick (Draw 0 2) (Draw 2 2), Render, HideTimeout 0] initial))
       = 10"
  by code_simp

text \<open>
  C2, amended: for a cell index \<open>i\<close> with \<open>0 \<le> i < 9\<close> and a handler whose render
  showed the session running, the handler adds exactly 10 to the score and leaves cell
  \<open>i\<close> Empty if its render showed a Mole there, subtracts exactly 10 (the score is an
  integer with no floor) and leaves cell \<open>i\<close> Empty if it showed a Bomb, and changes
  nothing at all if it showed the cell Empty. A click runs the handler of the last
  committed render; when that render is up to date, these are the contents of the state.
\<close>

theorem whack_scores_and_clears:
  assumes "0 \<le> i" and "i < 9" and "a"
  shows "(js_get h i = Some Mole \<longrightarrow>
            score (whackItem h a i s) = score s + 10
            \<and> js_get (holeContents (whackItem h a i s)) i = Some Empty)
       \<and> (js_get h i = Some Bomb \<longrightarrow>
            score (whackItem h a i s) = score s - 10
            \<and> js_get (holeContents (whackItem h a i s)) i = Some Empty)
       \<and> (js_get h i = Some Empty \<longrightarrow> whackItem h a i s = s)
       \<and> step (HoleClick i) s
           = whackItem (holeContents_r (rendered s)) (isActive_r (rendered s)) i s
       \<and> (rendered s = renderOf s \<longrightarrow>
            step (HoleClick i) s = whackItem (holeContents s) (isActive s) i s)"
  using assms by (simp add: whackItem_def Let_def js_get_set_same renderOf_def)

theorem whack_scores_and_clears_witness:
  "(0::int) \<le> 0 \<and> (0::int) < 9
   \<and> js_get demoGrid 0 = Some Mole
   \<and> score (whackItem demoGrid True 0 demo) = score demo + 10
   \<and> js_get (holeContents (whackItem demoGrid True 0 demo)) 0 = Some Empty
   \<and> js_get demoGrid 1 = Some Bomb \<and> score demo = 0
   \<and> score (whackItem demoGrid True 1 demo) = - 10
   \<and> js_get (holeContents (whackItem demoGrid True 1 demo)) 1 = Some Empty
   \<and> js_get demoGrid 2 = Some Empty \<and> whackItem demoGrid True 2 demo = demo
   \<and> rendered demo = renderOf demo
   \<and> step (HoleClick 0) demo = whackItem (holeContents demo) (isActive demo) 0 demo"
proof -
  have s0: "score demo = 0" and r: "rendered demo = renderOf demo"
    by (simp_all add: demo_defs renderOf_def)
  have m: "js_get demoGrid 0 = Some Mole"
    and b: "js_get demoGrid 1 = Some Bomb"
    and e: "js_get demoGrid 2 = Some Empty"
    by (simp_all add: demo_defs)
  have range: "(0::int) \<le> 0" "(0::int) < 9" "(0::int) \<le> 1" "(1::int) < 9"
    "(0::int) \<le> 2" "(2::int) < 9"
    by simp_all
  note t0 = whack_scores_and_clears [OF range(1,2) TrueI, of demoGrid demo]
  note t1 = whack_scores_and_clears [OF range(3,4) TrueI, of demoGrid demo]
  note t2 = whack_scores_and_clears [OF range(5,6) TrueI, of demoGrid demo]
  from t0 m have a: "score (whackItem demoGrid True 0 demo) = score demo + 10"
    "js_get (holeContents (whackItem demoGrid True 0 demo)) 0 = Some Empty"
    by blast+
  from t0 r have c: "step (HoleClick 0) demo = whackItem (holeContents demo) (isActive demo) 0 demo"
    by blast
  from t1 b have "score (whackItem demoGrid True 1 demo) = score demo - 10"
    and d2: "js_get (holeContents (whackItem demoGrid True 1 demo)) 1 = Some Empty"
    by blast+
  with s0 have d1: "score (whackItem demoGrid True 1 demo) = - 10"
    by simp
  from t2 e have f: "whackItem demoGrid True 2 demo = demo"
    by blast
  from range(1,2) s0 r m b e a c d1 d2 f show ?thesis
    by blast
qed

text \<open>
  C7, as the claim states it, fails in the same way: after start, render, 59 seconds, a
  Mole spawned at cell 0, the last tick of the countdown and the render whose effect ends
  the session, the session is not running and cell 0 is Empty in the state, but the last
  render showed a running session with the mole, and a click on cell 0 adds 10 to the
  score.
\<close>

theorem whack_noop_counterexample:
  "\<not> isActive (run ([StartClick, Render] @ seconds 59
        @ [PopTick (Draw 0 2) (Draw 2 2), ClockTimeout, Render]) initial)
   \<and> js_get (holeContents (run ([StartClick, Render] @ seconds 59
        @ [PopTick (Draw 0 2) (Draw 2 2), ClockTimeout, Render]) initial)) 0 = Some Empty
   \<and> score (run ([StartClick, Render] @ seconds 59
        @ [PopTick (Draw 0 2) (Draw 2 2), ClockTimeout, Render]) initial) = 0
   \<and> score (step (HoleClick 0) (run ([StartClick, Render] @ seconds 59
        @ [PopTick (Draw 0 2) (Draw 2 2), ClockTimeout, Render]) initial)) = 10"
  by code_simp

text \<open>
  C7, amended: a whack by a handler whose render showed the session not running, or
  showed the cell Empty, returns the state it was given: score, remaining time, end cause,
  every grid cell and every timer are as before. So does a click when the last committed
  render shows that. The handler has no failing branch.
\<close>

theorem whack_noop:
  "(\<not> a \<or> js_get h i = Some Empty \<longrightarrow> whackItem h a i s = s)
   \<and> (\<not> isActive_r (rendered s) \<or> js_get (holeContents_r (rendered s)) i = Some Empty \<longrightarrow>
        step (HoleClick i) s = s)"
  by (auto simp: whackItem_def)

theorem whack_noop_witness:
  "\<not> isActive_r (rendered initial) \<and> step (HoleClick 5) initial = initial
   \<and> js_get demoGrid 2 = Some Empty \<and> whackItem demoGrid True 2 demo = demo
   \<and> js_get (holeContents_r (rendered demo)) 2 = Some Empty \<and> step (HoleClick 2) demo = demo"
proof -
  have i: "\<not> isActive_r (rendered initial)" and e: "js_get demoGrid 2 = Some Empty"
    and e': "js_get (holeContents_r (rendered demo)) 2 = Some Empty"
    by (simp_all add: demo_defs)
  show ?thesis
    using i e e' whack_noop [of True demoGrid 2 demo] whack_noop [of a h 5 initial]
    by blast
qed

text \<open>
  C10: for a cell index \<open>i\<close> with \<open>0 \<le> i < 9\<close>, every starting state and whatever the
  handler captured from its render, \<open>whackItem\<close> leaves the remaining time, \<open>isActive\<close>,
  the end cause and every cell \<open>j \<noteq> i\<close> as they were; the state it returns differs from
  the one it was given in the score and the grid at most.
\<close>

theorem whackItem_frame_effect:
  assumes "0 \<le> i" and "i < 9"
  shows "timeLeft (whackItem h a i s) = timeLeft s
       \<and> isActive (whackItem h a i s) = isActive s
       \<and> gameOverReason (whackItem h a i s) = gameOverReason s
       \<and> (\<forall>j. 0 \<le> j \<and> j \<le> MAX_ARRAY_INDEX \<and> j \<noteq> i \<longrightarrow>
             js_get (holeContents (whackItem h a i s)) j = js_get (holeContents s) j)
       \<and> whackItem h a i s
           = s\<lparr>score := score (whackItem h a i s), holeContents := holeContents (whackItem h a i s)\<rparr>"
  by (simp add: whackItem_def Let_def js_get_set_other js_get_spread)

theorem whackItem_frame_effect_witness:
  "(0::int) \<le> 0 \<and> (0::int) < 9 \<and> (0::int) \<le> 1 \<and> (1::int) \<le> MAX_ARRAY_INDEX \<and> (1::int) \<noteq> 0
   \<and> timeLeft (whackItem demoGrid True 0 demo) = timeLeft demo
   \<and> js_get (holeContents (whackItem demoGrid True 0 demo)) 1 = Some Bomb"
proof -
  have "js_get (holeContents demo) 1 = Some Bomb" and "(1::int) \<le> MAX_ARRAY_INDEX"
    by (simp_all add: demo_defs)
  then show ?thesis
    using whackItem_frame_effect [of 0 demoGrid True demo] by simp
qed

text \<open>
  C9: on a grid of nine cells (in the render of the handler and in the state) and with a
  render that showed the session running, a whack at an index below 0 or from 9 on reads
  \<open>undefined\<close>, which is not \<open>'empty'\<close>, so the handler goes on: the score stays,
  \<open>'empty'\<close> is stored at that index and the new array differs from the old one. For an
  index from 9 up to the largest array index the array grows to \<open>index + 1\<close> elements;
  for a negative index (or one above the largest array index) the value is stored as a
  property and the array keeps its nine elements.
\<close>

theorem whack_out_of_range:
  assumes "a" and "js_length h = 9" and "props h = []"
    and "js_length (holeContents s) = 9" and "props (holeContents s) = []"
    and "index < 0 \<or> 9 \<le> index"
  shows "score (whackItem h a index s) = score s
       \<and> js_get h index = None
       \<and> js_get (holeContents s) index = None
       \<and> js_get (holeContents (whackItem h a index s)) index = Some Empty
       \<and> holeContents (whackItem h a index s) \<noteq> holeContents s
       \<and> (9 \<le> index \<and> index \<le> MAX_ARRAY_INDEX \<longrightarrow>
            js_length (holeContents (whackItem h a index s)) = index + 1)
       \<and> (index < 0 \<or> MAX_ARRAY_INDEX < index \<longrightarrow>
            js_length (holeContents (whackItem h a index s)) = 9
            \<and> props (holeContents (whackItem h a index s)) = [(index, Empty)])
       \<and> (rendered s = renderOf s \<and> isActive s \<longrightarrow>
            step (HoleClick index) s = whackItem (holeContents s) (isActive s) index s)"
proof -
  let ?s' = "whackItem h a index s"
  have undef: "js_get h index = None"
    using assms(2,3,6) by (auto simp: js_get_def)
  have undef_s: "js_get (holeContents s) index = None"
    using assms(4,5,6) by (auto simp: js_get_def)
  from undef have w: "?s' = s\<lparr>holeContents := js_set (js_spread (holeContents s)) index Empty\<rparr>"
    using assms(1) by (simp add: whackItem_def)
  have "js_get (holeContents ?s') index = Some Empty"
    by (simp add: w js_get_set_same)
  with undef_s have changed: "holeContents ?s' \<noteq> holeContents s"
    by auto
  have grow: "9 \<le> index \<and> index \<le> MAX_ARRAY_INDEX \<longrightarrow>
      js_length (holeContents ?s') = index + 1"
    using assms(4) by (auto simp: w js_set_def js_length_def)
  have stay: "index < 0 \<or> MAX_ARRAY_INDEX < index \<longrightarrow>
      js_length (holeContents ?s') = 9 \<and> props (holeContents ?s') = [(index, Empty)]"
    using assms(4) by (auto simp: w js_set_def js_length_def)
  have ev: "rendered s = renderOf s \<and> isActive s \<longrightarrow>
      step (HoleClick index) s = whackItem (holeContents s) (isActive s) index s"
    by (simp add: renderOf_def)
  show ?thesis
    using undef undef_s changed grow stay ev by (simp add: w js_get_set_same)
qed

theorem whack_out_of_range_witness:
  "isActive demo \<and> js_length (holeContents demo) = 9 \<and> props (holeContents demo) = []
   \<and> rendered demo = renderOf demo
   \<and> score (step (HoleClick 11) demo) = score demo
   \<and> js_get (holeContents (step (HoleClick 11) demo)) 11 = Some Empty
   \<and> js_length (holeContents (step (HoleClick 11) demo)) = 12
   \<and> score (step (HoleClick (- 1)) demo) = score demo
   \<and> js_get (holeContents (step (HoleClick (- 1)) demo)) (- 1) = Some Empty
   \<and> js_length (holeContents (step (HoleClick (- 1)) demo)) = 9
   \<and> props (holeContents (step (HoleClick (- 1)) demo)) = [(- 1, Empty)]"
proof -
  have h: "isActive demo" "js_length (holeContents demo) = 9" "props (holeContents demo) = []"
    and r: "rendered demo = renderOf demo"
    by (simp_all add: demo_defs renderOf_def)
  have m: "(11::int) \<le> MAX_ARRAY_INDEX"
    by (simp add: MAX_ARRAY_INDEX_def)
  note t = whack_out_of_range [OF h(1) h(2,3) h(2,3)]
  from t [of 11] h(1) r m
  have a: "step (HoleClick 11) demo = whackItem (holeContents demo) (isActive demo) 11 demo"
    and a1: "score (whackItem (holeContents demo) (isActive demo) 11 demo) = score demo"
    and a2: "js_get (holeContents (whackItem (holeContents demo) (isActive demo) 11 demo)) 11
        = Some Empty"
    and a3: "js_length (holeContents (whackItem (holeContents demo) (isActive demo) 11 demo)) = 12"
    by (simp_all del: step.simps)
  from t [of "- 1"] h(1) r
  have b: "step (HoleClick (- 1)) demo
        = whackItem (holeContents demo) (isActive demo) (- 1) demo"
    and b1: "score (whackItem (holeContents demo) (isActive demo) (- 1) demo) = score demo"
    and b2: "js_get (holeContents (whackItem (holeContents demo) (isActive demo) (- 1) demo)) (- 1)
        = Some Empty"
    and b3: "js_length (holeContents (whackItem (holeContents demo) (isActive demo) (- 1) demo)) = 9"
    and b4: "props (holeContents (whackItem (holeContents demo) (isActive demo) (- 1) demo))
        = [(- 1, Empty)]"
    by (simp_all del: step.simps)
  from h r a1 a2 a3 b1 b2 b3 b4 show ?thesis
    unfolding a b by blast
qed

section \<open>Spawning\<close>

text \<open>The indexes the spawn chooses from: the cells that hold \<open>'empty'\<close>, in index order.\<close>

lemma zip_upt_nth: "zip xs [0 ..< length xs] = map (\<lambda>i. (xs ! i, i)) [0 ..< length xs]"
  by (rule nth_equalityI) simp_all

lemma emptyHolesIndexes_eq:
  "emptyHolesIndexes h
     = map int (filter (\<lambda>i. elems h ! i = Some Empty) [0 ..< length (elems h)])"
proof -
  let ?xs = "elems h"
  let ?f = "\<lambda>i. if ?xs ! i = Some Empty then int i else - 1"
  have "emptyHolesIndexes h = filter (\<lambda>index. index \<noteq> - 1) (map ?f [0 ..< length ?xs])"
    by (simp add: emptyHolesIndexes_def zip_upt_nth o_def)
  also have "\<dots> = map ?f (filter (\<lambda>i. ?f i \<noteq> - 1) [0 ..< length ?xs])"
    by (simp add: filter_map o_def)
  also have "filter (\<lambda>i. ?f i \<noteq> - 1) [0 ..< length ?xs]
      = filter (\<lambda>i. ?xs ! i = Some Empty) [0 ..< length ?xs]"
    by (rule filter_cong) auto
  also have "map ?f (filter (\<lambda>i. ?xs ! i = Some Empty) [0 ..< length ?xs])
      = map int (filter (\<lambda>i. ?xs ! i = Some Empty) [0 ..< length ?xs])"
    by (rule map_cong) auto
  finally show ?thesis .
qed

lemma set_emptyHolesIndexes:
  "set (emptyHolesIndexes h)
     = {c. 0 \<le> c \<and> c < js_length h \<and> elems h ! nat c = Some Empty}"
proof -
  have "set (emptyHolesIndexes h) = int ` {i. i < length (elems h) \<and> elems h ! i = Some Empty}"
    by (auto simp: emptyHolesIndexes_eq)
  also have "\<dots> = {c. 0 \<le> c \<and> c < js_length h \<and> elems h ! nat c = Some Empty}"
  proof (rule set_eqI)
    fix c :: int
    show "c \<in> int ` {i. i < length (elems h) \<and> elems h ! i = Some Empty}
        \<longleftrightarrow> c \<in> {c. 0 \<le> c \<and> c < js_length h \<and> elems h ! nat c = Some Empty}"
    proof
      assume "c \<in> int ` {i. i < length (elems h) \<and> elems h ! i = Some Empty}"
      then show "c \<in> {c. 0 \<le> c \<and> c < js_length h \<and> elems h ! nat c = Some Empty}"
        by (auto simp: js_length_def)
    next
      assume "c \<in> {c. 0 \<le> c \<and> c < js_length h \<and> elems h ! nat c = Some Empty}"
      then have "nat c < length (elems h)" "elems h ! nat c = Some Empty" "c = int (nat c)"
        by (auto simp: js_length_def)
      then show "c \<in> int ` {i. i < length (elems h) \<and> elems h ! i = Some Empty}"
        by blast
    qed
  qed
  finally show ?thesis .
qed

lemma sorted_emptyHolesIndexes: "sorted_wrt (<) (emptyHolesIndexes h)"
proof -
  have "sorted_wrt (<) (filter (\<lambda>i. elems h ! i = Some Empty) [0 ..< length (elems h)])"
    by (rule sorted_wrt_filter) simp
  then show ?thesis
    by (simp add: emptyHolesIndexes_eq sorted_wrt_map)
qed

lemma distinct_emptyHolesIndexes: "distinct (emptyHolesIndexes h)"
  using sorted_emptyHolesIndexes [of h] by (simp add: strict_sorted_iff)

lemma emptyHolesIndexes_Nil:
  "emptyHolesIndexes h = [] \<longleftrightarrow> Some Empty \<notin> set (elems h)"
proof -
  have "emptyHolesIndexes h = [] \<longleftrightarrow> set (emptyHolesIndexes h) = {}"
    by simp
  also have "\<dots> \<longleftrightarrow> Some Empty \<notin> set (elems h)"
    unfolding emptyHolesIndexes_eq by (auto simp: in_set_conv_nth filter_empty_conv)
  finally show ?thesis .
qed

lemma emptyHolesIndexes_js_get:
  assumes "js_length h \<le> MAX_ARRAY_INDEX + 1"
  shows "set (emptyHolesIndexes h) = {c. 0 \<le> c \<and> c < js_length h \<and> js_get h c = Some Empty}"
  using assms by (auto simp: set_emptyHolesIndexes js_get_def)

lemma holeContents_spawnAt:
  "holeContents (spawnAt c v s) = js_set (js_spread (holeContents s)) c v"
  by (simp add: spawnAt_def Let_def)

lemma randomIndexOf_mem:
  assumes "unit_draw r1" and "E \<noteq> []"
  shows "randomIndexOf r1 E \<in> set E"
proof -
  from assms(2) have "0 < length E" by (cases E) simp_all
  then have "nat \<lfloor>mul_double r1 (length E)\<rfloor> < length E"
    by (rule slot_in_range [OF assms(1)])
  then show ?thesis by (simp add: randomIndexOf_def)
qed

lemma contentOf_cases:
  "unit_draw r2 \<Longrightarrow> contentOf r2 = (if draw_value r2 < 2 / 10 then Bomb else Mole)"
  by (simp add: contentOf_def bomb_threshold)

lemma contentOf_not_Empty: "contentOf r = Mole \<or> contentOf r = Bomb"
  by (simp add: contentOf_def)

lemma length_emptyHolesIndexes: "length (emptyHolesIndexes h) \<le> length (elems h)"
proof -
  have "length (emptyHolesIndexes h)
      = length (filter (\<lambda>i. elems h ! i = Some Empty) [0 ..< length (elems h)])"
    by (simp add: emptyHolesIndexes_eq)
  also have "\<dots> \<le> length [0 ..< length (elems h)]"
    by (rule length_filter_le)
  finally show ?thesis by simp
qed

lemma slot_at_most_next:
  assumes "unit_draw d" and "0 < n" and "n < 2 ^ 53"
  shows "nat \<lfloor>mul_double d n\<rfloor> \<le> nat \<lfloor>draw_value d * real n\<rfloor> + 1"
proof -
  let ?x = "draw_value d * real n"
  let ?j = "nat \<lfloor>mul_double d n\<rfloor>"
  have x0: "0 \<le> ?x" by (cases d) simp
  have "draw_value d < 1"
    using assms(1) by (cases d) (simp add: unit_draw_iff)
  then have "?x < real n" using assms(2) by simp
  also have "real n < 2 ^ 53" using assms(3) by (simp add: of_nat_less_iff [of n "2 ^ 53", simplified])
  finally have "?x / 2 ^ 53 < 1" by simp
  moreover have "?x * (1 + 1 / 2 ^ 53) = ?x + ?x / 2 ^ 53" by (simp add: algebra_simps)
  ultimately have "?x * (1 + 1 / 2 ^ 53) < ?x + 1" by linarith
  with slot_sandwich(1) [OF assms(1,3)] have "real ?j < ?x + 1" by linarith
  also have "?x < real_of_int \<lfloor>?x\<rfloor> + 1" by linarith
  also have "real_of_int \<lfloor>?x\<rfloor> = real (nat \<lfloor>?x\<rfloor>)" using x0 by (simp add: of_nat_nat)
  finally have "real ?j < real (nat \<lfloor>?x\<rfloor>) + 2" by simp
  then show ?thesis by linarith
qed

lemma bigDraw: "unit_draw (Draw 2573485501354569 52)"
  by (simp only: unit_draw_iff) simp

lemma smallDraws: "unit_draw (Draw 0 2)" "unit_draw (Draw 2 2)" "unit_draw (Draw 2 4)"
  by (simp_all only: unit_draw_iff) simp_all

lemma demoEmpties: "emptyHolesIndexes (holeContents demo) = [2, 3, 4, 5, 6, 7, 8]"
  by (simp add: demo_defs emptyHolesIndexes_def upt_rec)

lemma bigDraw_slot: "nat \<lfloor>mul_double (Draw 2573485501354569 52) 7\<rfloor> = 4"
  by (simp add: round53_def bitLength.simps Let_def)

lemma bigDraw_index: "randomIndexOf (Draw 2573485501354569 52) [2, 3, 4, 5, 6, 7, 8] = 6"
proof -
  have "nat \<lfloor>mul_double (Draw 2573485501354569 52) (length [2, 3, 4, 5, 6, 7, 8 :: int])\<rfloor> = 4"
    by (simp add: round53_def bitLength.simps Let_def)
  then have "randomIndexOf (Draw 2573485501354569 52) [2, 3, 4, 5, 6, 7, 8]
      = [2, 3, 4, 5, 6, 7, 8] ! 4"
    by (simp only: randomIndexOf_def)
  then show ?thesis by simp
qed

lemma bigDraw_exact: "nat \<lfloor>draw_value (Draw 2573485501354569 52) * 7\<rfloor> = 3"
  by simp

lemma smallContents: "contentOf (Draw 2 2) = Mole" "contentOf (Draw 2 4) = Bomb"
  by (simp_all add: contentOf_def BOMB_CHANCE_def)

text \<open>
  C5, as the claim states it, fails for a draw whose product with the number of empty
  cells rounds up to a whole number: with the seven empty cells 2 to 8 and
  \<open>r1 = 2573485501354569 / 2^52\<close>, which lies in \<open>[3/7, 4/7)\<close>, the exact product
  \<open>r1 * 7\<close> is \<open>4 - 2^-52\<close> with floor 3, which names cell 5; the double product is
  4, and the spawn goes to cell 6.
\<close>

theorem popUpdater_spawn_counterexample:
  "unit_draw (Draw 2573485501354569 52) \<and> unit_draw (Draw 2 2)
   \<and> emptyHolesIndexes (holeContents demo) = [2, 3, 4, 5, 6, 7, 8]
   \<and> 3 / 7 \<le> draw_value (Draw 2573485501354569 52)
   \<and> draw_value (Draw 2573485501354569 52) < 4 / 7
   \<and> nat \<lfloor>draw_value (Draw 2573485501354569 52) * 7\<rfloor> = 3
   \<and> [2, 3, 4, 5, 6, 7, 8] ! 3 = (5::int)
   \<and> js_get (holeContents (popUpdater (Draw 2573485501354569 52) (Draw 2 2) demo)) 5 = Some Empty
   \<and> js_get (holeContents (popUpdater (Draw 2573485501354569 52) (Draw 2 2) demo)) 6 = Some Mole"
proof -
  note c = bigDraw_index
  have h: "holeContents (popUpdater (Draw 2573485501354569 52) (Draw 2 2) demo)
      = js_set (js_spread (holeContents demo)) 6 Mole"
    by (simp add: popUpdater_def Let_def demoEmpties c smallContents holeContents_spawnAt)
  have five: "js_get (holeContents (popUpdater (Draw 2573485501354569 52) (Draw 2 2) demo)) 5
      = Some Empty"
    unfolding h by (simp add: demo_defs js_set_def js_spread_def)
  have six: "js_get (holeContents (popUpdater (Draw 2573485501354569 52) (Draw 2 2) demo)) 6
      = Some Mole"
    unfolding h by (rule js_get_set_same)
  have v: "3 / 7 \<le> draw_value (Draw 2573485501354569 52)"
    "draw_value (Draw 2573485501354569 52) < 4 / 7"
    by simp_all
  have n: "[2, 3, 4, 5, 6, 7, 8] ! 3 = (5::int)"
    by simp
  from bigDraw smallDraws(2) demoEmpties v bigDraw_exact n five six show ?thesis
    by blast
qed

text \<open>
  C5, amended: a spawn tick with the doubles \<open>r1\<close> and \<open>r2\<close> in \<open>[0, 1)\<close>. The list it
  chooses from holds exactly the indexes of the Empty cells. If there is none, the state is
  returned unchanged. Otherwise, with \<open>n\<close> the number of Empty cells, the cell chosen is
  \<open>emptyHolesIndexes[j]\<close> for \<open>j\<close> the floor of the double product of \<open>r1\<close> and \<open>n\<close>;
  \<open>j\<close> is below \<open>n\<close>, so the cell is an Empty one, and \<open>j\<close> is the floor of the exact
  product \<open>x = r1 * n\<close> or that floor plus one. The cell becomes Bomb if \<open>r2 < 0.2\<close> and
  Mole otherwise, every other cell and the length of the array stay. The \<open>k\<close>-th Empty
  cell is the one chosen whenever \<open>k \<le> x\<close> and \<open>x * (1 + 2^-53) < k + 1\<close>, and only if
  \<open>k \<le> x * (1 + 2^-53)\<close> and \<open>x < k + 1\<close>: each Empty cell has an interval of draws
  of length \<open>1/n\<close> up to a relative \<open>2^-53\<close> at its upper end. A JavaScript array has
  at most \<open>2^32 - 1\<close> elements, which the third hypothesis says.
\<close>

theorem popUpdater_spawn:
  assumes "unit_draw r1" and "unit_draw r2"
    and "js_length (holeContents s) \<le> MAX_ARRAY_INDEX + 1"
  shows "set (emptyHolesIndexes (holeContents s))
           = {c. 0 \<le> c \<and> c < js_length (holeContents s) \<and> js_get (holeContents s) c = Some Empty}
       \<and> (emptyHolesIndexes (holeContents s) = [] \<longrightarrow> popUpdater r1 r2 s = s)
       \<and> (emptyHolesIndexes (holeContents s) \<noteq> [] \<longrightarrow>
            (let E = emptyHolesIndexes (holeContents s);
                 n = length E;
                 x = draw_value r1 * real n;
                 j = nat \<lfloor>mul_double r1 n\<rfloor>;
                 c = randomIndexOf r1 E;
                 h' = holeContents (popUpdater r1 r2 s)
             in j < n \<and> c = E ! j
              \<and> js_get (holeContents s) c = Some Empty
              \<and> js_get h' c = Some (if draw_value r2 < 2 / 10 then Bomb else Mole)
              \<and> (\<forall>i. 0 \<le> i \<and> i \<le> MAX_ARRAY_INDEX \<and> i \<noteq> c \<longrightarrow> js_get h' i = js_get (holeContents s) i)
              \<and> js_length h' = js_length (holeContents s)
              \<and> (j = nat \<lfloor>x\<rfloor> \<or> j = nat \<lfloor>x\<rfloor> + 1)
              \<and> (\<forall>k < n.
                    (real k \<le> x \<and> x * (1 + 1 / 2 ^ 53) < real k + 1 \<longrightarrow> c = E ! k)
                    \<and> (c = E ! k \<longrightarrow> real k \<le> x * (1 + 1 / 2 ^ 53) \<and> x < real k + 1))))"
proof -
  let ?h = "holeContents s"
  let ?E = "emptyHolesIndexes ?h"
  let ?n = "length ?E"
  let ?x = "draw_value r1 * real ?n"
  let ?j = "nat \<lfloor>mul_double r1 ?n\<rfloor>"
  let ?c = "randomIndexOf r1 ?E"
  let ?h' = "holeContents (popUpdater r1 r2 s)"
  have chars: "set ?E = {c. 0 \<le> c \<and> c < js_length ?h \<and> js_get ?h c = Some Empty}"
    by (rule emptyHolesIndexes_js_get [OF assms(3)])
  have full: "?E = [] \<longrightarrow> popUpdater r1 r2 s = s"
    by (simp add: popUpdater_def)
  have "int ?n \<le> js_length ?h"
    using length_emptyHolesIndexes [of ?h] by (simp add: js_length_def)
  with assms(3) have "int ?n < 2 ^ 53"
    by (simp add: MAX_ARRAY_INDEX_def)
  then have small: "?n < 2 ^ 53"
    by (simp add: of_nat_less_iff [of ?n "2 ^ 53", where ?'a = int, simplified])
  have spawn: "?j < ?n \<and> ?c = ?E ! ?j
      \<and> js_get ?h ?c = Some Empty
      \<and> js_get ?h' ?c = Some (if draw_value r2 < 2 / 10 then Bomb else Mole)
      \<and> (\<forall>i. 0 \<le> i \<and> i \<le> MAX_ARRAY_INDEX \<and> i \<noteq> ?c \<longrightarrow> js_get ?h' i = js_get ?h i)
      \<and> js_length ?h' = js_length ?h
      \<and> (?j = nat \<lfloor>?x\<rfloor> \<or> ?j = nat \<lfloor>?x\<rfloor> + 1)
      \<and> (\<forall>k < ?n.
            (real k \<le> ?x \<and> ?x * (1 + 1 / 2 ^ 53) < real k + 1 \<longrightarrow> ?c = ?E ! k)
            \<and> (?c = ?E ! k \<longrightarrow> real k \<le> ?x * (1 + 1 / 2 ^ 53) \<and> ?x < real k + 1))"
    if ne: "?E \<noteq> []"
  proof -
    from ne have pos: "0 < ?n" by (cases ?E) simp_all
    have j: "?j < ?n" by (rule slot_in_range [OF assms(1) pos])
    have cj: "?c = ?E ! ?j" by (simp add: randomIndexOf_def)
    have mem: "?c \<in> set ?E" by (rule randomIndexOf_mem [OF assms(1) ne])
    then have range: "0 \<le> ?c" "?c < js_length ?h" and was: "js_get ?h ?c = Some Empty"
      by (simp_all add: chars)
    have h'_eq: "?h' = js_set (js_spread ?h) ?c (contentOf r2)"
      using ne by (simp add: popUpdater_def Let_def holeContents_spawnAt)
    have now: "js_get ?h' ?c = Some (if draw_value r2 < 2 / 10 then Bomb else Mole)"
      by (simp only: h'_eq js_get_set_same contentOf_cases [OF assms(2)])
    have others: "\<forall>i. 0 \<le> i \<and> i \<le> MAX_ARRAY_INDEX \<and> i \<noteq> ?c \<longrightarrow> js_get ?h' i = js_get ?h i"
      by (simp add: h'_eq js_get_set_other js_get_spread)
    have len: "js_length ?h' = js_length ?h"
      using range by (simp add: h'_eq js_length_set_in_range)
    have near: "?j = nat \<lfloor>?x\<rfloor> \<or> ?j = nat \<lfloor>?x\<rfloor> + 1"
      using slot_not_below [OF assms(1) small] slot_at_most_next [OF assms(1) pos small]
      by linarith
    have slots: "(real k \<le> ?x \<and> ?x * (1 + 1 / 2 ^ 53) < real k + 1 \<longrightarrow> ?c = ?E ! k)
        \<and> (?c = ?E ! k \<longrightarrow> real k \<le> ?x * (1 + 1 / 2 ^ 53) \<and> ?x < real k + 1)"
      if k: "k < ?n" for k
    proof (intro conjI impI)
      assume "real k \<le> ?x \<and> ?x * (1 + 1 / 2 ^ 53) < real k + 1"
      then have "?j = k" using slot_chosen [OF assms(1) small] by blast
      then show "?c = ?E ! k" by (simp add: cj)
    next
      assume "?c = ?E ! k"
      then have "?j = k"
        using j k distinct_emptyHolesIndexes [of ?h] by (simp add: cj nth_eq_iff_index_eq)
      then show "real k \<le> ?x * (1 + 1 / 2 ^ 53)" and "?x < real k + 1"
        using slot_sandwich [OF assms(1) small] by simp_all
    qed
    from j cj was now others len near slots show ?thesis
      by blast
  qed
  show ?thesis
    using chars full spawn unfolding Let_def by blast
qed

theorem popUpdater_spawn_witness:
  "unit_draw (Draw 2573485501354569 52) \<and> unit_draw (Draw 2 4)
   \<and> js_length (holeContents demo) \<le> MAX_ARRAY_INDEX + 1
   \<and> emptyHolesIndexes (holeContents demo) = [2, 3, 4, 5, 6, 7, 8]
   \<and> nat \<lfloor>mul_double (Draw 2573485501354569 52) 7\<rfloor> = 4
   \<and> randomIndexOf (Draw 2573485501354569 52) (emptyHolesIndexes (holeContents demo)) = 6
   \<and> js_get (holeContents demo) 6 = Some Empty
   \<and> js_get (holeContents (popUpdater (Draw 2573485501354569 52) (Draw 2 4) demo)) 6 = Some Bomb
   \<and> js_get (holeContents (popUpdater (Draw 2573485501354569 52) (Draw 2 4) demo)) 0 = Some Mole"
proof -
  have l: "js_length (holeContents demo) \<le> MAX_ARRAY_INDEX + 1"
    by (simp add: demo_defs)
  have v: "draw_value (Draw 2 4) < 2 / 10"
    by simp
  have m: "js_get (holeContents demo) 0 = Some Mole" "(0::int) \<le> MAX_ARRAY_INDEX"
    by (simp_all add: demo_defs)
  have c: "randomIndexOf (Draw 2573485501354569 52) (emptyHolesIndexes (holeContents demo)) = 6"
    by (simp only: demoEmpties bigDraw_index)
  have ne: "emptyHolesIndexes (holeContents demo) \<noteq> []"
    by (simp only: demoEmpties) simp
  note t = popUpdater_spawn [OF bigDraw smallDraws(3) l, unfolded Let_def]
  from t ne have "js_get (holeContents demo)
      (randomIndexOf (Draw 2573485501354569 52) (emptyHolesIndexes (holeContents demo)))
        = Some Empty"
    by blast
  then have w: "js_get (holeContents demo) 6 = Some Empty"
    by (simp only: c)
  from t ne have "js_get (holeContents (popUpdater (Draw 2573485501354569 52) (Draw 2 4) demo))
      (randomIndexOf (Draw 2573485501354569 52) (emptyHolesIndexes (holeContents demo)))
        = Some (if draw_value (Draw 2 4) < 2 / 10 then Bomb else Mole)"
    by blast
  then have b: "js_get (holeContents (popUpdater (Draw 2573485501354569 52) (Draw 2 4) demo)) 6
      = Some Bomb"
    using v by (simp only: c if_True)
  from t ne have "\<forall>i. 0 \<le> i \<and> i \<le> MAX_ARRAY_INDEX
      \<and> i \<noteq> randomIndexOf (Draw 2573485501354569 52) (emptyHolesIndexes (holeContents demo))
      \<longrightarrow> js_get (holeContents (popUpdater (Draw 2573485501354569 52) (Draw 2 4) demo)) i
        = js_get (holeContents demo) i"
    by blast
  then have "js_get (holeContents (popUpdater (Draw 2573485501354569 52) (Draw 2 4) demo)) 0
      = js_get (holeContents demo) 0"
    using m(2) by (simp only: c) simp
  with m(1) have k: "js_get (holeContents (popUpdater (Draw 2573485501354569 52) (Draw 2 4) demo)) 0
      = Some Mole"
    by simp
  from bigDraw smallDraws(3) l demoEmpties bigDraw_slot c w b k show ?thesis
    by blast
qed

section \<open>Every reachable state is well-formed\<close>

lemma gridOk_emptyGrid: "gridOk emptyGrid"
  by (simp add: gridOk_def emptyGrid_def GRID_SIZE_def js_length_def MAX_ARRAY_INDEX_def)

lemma gridOk_spread: "gridOk h \<Longrightarrow> gridOk (js_spread h)"
  by (simp add: gridOk_def)

lemma gridOk_set: "gridOk h \<Longrightarrow> gridOk (js_set h i v)"
  by (auto simp: gridOk_def js_set_def js_length_def nth_append nth_list_update)

lemma gridOk_hideUpdater: "gridOk h \<Longrightarrow> gridOk (hideUpdater c v h)"
  by (simp add: hideUpdater_def Let_def gridOk_set gridOk_spread)

lemma gridOk_get:
  "gridOk h \<Longrightarrow> 0 \<le> i \<Longrightarrow> i < 9 \<Longrightarrow> \<exists>c. js_get h i = Some c"
  by (auto simp: gridOk_def js_get_def js_length_def GRID_SIZE_def MAX_ARRAY_INDEX_def)

lemma wellFormed_initial: "wellFormed initial"
  by (simp add: wellFormed_def timersTracked_def gridOk_emptyGrid initial_def GAME_DURATION_def)

lemma wellFormed_startGame: "wellFormed s \<Longrightarrow> wellFormed (startGame s)"
  by (simp add: wellFormed_def timersTracked_def startGame_def GAME_DURATION_def gridOk_emptyGrid)

lemma wellFormed_whackItem: "wellFormed s \<Longrightarrow> wellFormed (whackItem h a i s)"
  by (simp add: wellFormed_def timersTracked_def whackItem_def Let_def gridOk_set gridOk_spread)

lemma wellFormed_spawnAt: "wellFormed s \<Longrightarrow> wellFormed (spawnAt c v s)"
  by (auto simp: wellFormed_def timersTracked_def spawnAt_def Let_def
      gridOk_set gridOk_spread less_Suc_eq)

lemma wellFormed_popUpdater: "wellFormed s \<Longrightarrow> wellFormed (popUpdater r1 r2 s)"
  by (simp add: popUpdater_def Let_def wellFormed_spawnAt)

lemma wellFormed_hide:
  "wellFormed s \<Longrightarrow>
     wellFormed (s\<lparr>timeouts := filter (\<lambda>t. fst t \<noteq> h) (timeouts s),
                   holeContents := hideUpdater c v (holeContents s)\<rparr>)"
  by (auto simp: wellFormed_def timersTracked_def gridOk_hideUpdater)

lemma wellFormed_clock:
  "wellFormed s \<Longrightarrow> timerId s \<Longrightarrow>
     wellFormed (s\<lparr>timerId := False, timeLeft := timeLeft s - 1\<rparr>)"
  by (auto simp: wellFormed_def timersTracked_def)

lemma wellFormed_gameTimerCleanup: "wellFormed s \<Longrightarrow> wellFormed (gameTimerCleanup s)"
  by (simp add: wellFormed_def timersTracked_def gameTimerCleanup_def)

lemma wellFormed_poppingCleanup: "wellFormed s \<Longrightarrow> wellFormed (poppingCleanup s)"
  by (auto simp: wellFormed_def timersTracked_def poppingCleanup_def clearTimeouts_def)

lemma wellFormed_poppingEffect: "wellFormed s \<Longrightarrow> wellFormed (poppingEffect r s)"
  by (simp add: wellFormed_def timersTracked_def poppingEffect_def)

lemma wellFormed_gameTimerEffect:
  "wellFormed s \<Longrightarrow> timeLeft_r r = timeLeft s \<Longrightarrow> wellFormed (gameTimerEffect r s)"
  by (auto simp: wellFormed_def timersTracked_def gameTimerEffect_def clearTimeouts_def
      gridOk_emptyGrid)

lemma timeLeft_cleanups:
  "timeLeft (gameTimerCleanup s) = timeLeft s" "timeLeft (poppingCleanup s) = timeLeft s"
  by (simp_all add: gameTimerCleanup_def poppingCleanup_def)

lemma wellFormed_commitEffects:
  assumes "wellFormed s" and "timeLeft_r r = timeLeft s"
  shows "wellFormed (commitEffects old r s)"
  using assms
  by (simp add: commitEffects_def Let_def wellFormed_gameTimerCleanup wellFormed_poppingCleanup
      wellFormed_poppingEffect wellFormed_gameTimerEffect timeLeft_cleanups)

lemma wellFormed_rendered: "wellFormed s \<Longrightarrow> wellFormed (s\<lparr>rendered := r\<rparr>)"
  by (simp add: wellFormed_def timersTracked_def)

lemma wellFormed_render: "wellFormed s \<Longrightarrow> wellFormed (render s)"
  unfolding render_def
  by (rule wellFormed_rendered, rule wellFormed_commitEffects) (simp_all add: renderOf_def)

lemma wellFormed_step: "wellFormed s \<Longrightarrow> wellFormed (step e s)"
proof (cases e)
  case StartClick
  assume "wellFormed s"
  with StartClick show ?thesis by (simp add: wellFormed_startGame)
next
  case (HoleClick i)
  assume "wellFormed s"
  with HoleClick show ?thesis by (simp add: wellFormed_whackItem)
next
  case ClockTimeout
  assume "wellFormed s"
  with ClockTimeout show ?thesis by (simp add: wellFormed_clock)
next
  case (PopTick r1 r2)
  assume "wellFormed s"
  with PopTick show ?thesis by (simp add: wellFormed_popUpdater)
next
  case (HideTimeout h)
  assume "wellFormed s"
  with HideTimeout show ?thesis by (simp add: wellFormed_hide split: option.splits)
next
  case Render
  assume "wellFormed s"
  with Render show ?thesis by (simp add: wellFormed_render)
qed

lemma wellFormed_run: "wellFormed s \<Longrightarrow> wellFormed (run evs s)"
  by (induction evs arbitrary: s) (simp_all add: wellFormed_step)

lemma wellFormed_reachable: "wellFormed (run evs initial)"
  by (rule wellFormed_run [OF wellFormed_initial])

section \<open>Bombs do not end a session\<close>

lemma whacks_keep_session:
  "isActive (run (map HoleClick is) s) = isActive s
   \<and> gameOverReason (run (map HoleClick is) s) = gameOverReason s
   \<and> timeLeft (run (map HoleClick is) s) = timeLeft s"
proof (induction "is" arbitrary: s)
  case Nil
  show ?case by simp
next
  case (Cons i "is")
  have "isActive (step (HoleClick i) s) = isActive s"
    "gameOverReason (step (HoleClick i) s) = gameOverReason s"
    "timeLeft (step (HoleClick i) s) = timeLeft s"
    by (simp_all add: whackItem_def Let_def)
  with Cons.IH [of "step (HoleClick i) s"] show ?case
    by (simp del: step.simps)
qed

lemma reason_cases: "r \<noteq> Some BombHit \<Longrightarrow> r = None \<or> r = Some Time"
  by (cases r) (auto intro: OverReason.exhaust)

lemma render_ends:
  assumes "isActive s" and "\<not> isActive (render s)"
  shows "timeLeft s \<le> 0
       \<and> gameOverReason (render s)
           = (if gameOverReason s = None then Some Time else gameOverReason s)"
  using assms
  by (cases "gameOverReason s")
    (auto simp: render_def renderOf_def commitEffects_def gameTimerEffect_def
      gameTimerCleanup_def poppingEffect_def poppingCleanup_def Let_def split: if_splits)

lemma only_render_ends:
  assumes "wellFormed s" and "isActive s" and "\<not> isActive (step e s)"
  shows "e = Render \<and> timeLeft s = 0 \<and> gameOverReason (step e s) = Some Time"
proof (cases e)
  case StartClick
  with assms(2,3) show ?thesis by (simp add: startGame_def split: if_splits)
next
  case (HoleClick i)
  with assms(2,3) show ?thesis by (simp add: whackItem_def Let_def split: if_splits)
next
  case ClockTimeout
  with assms(2,3) show ?thesis by (simp split: if_splits)
next
  case (PopTick r1 r2)
  with assms(2,3) show ?thesis
    by (simp add: popUpdater_def spawnAt_def Let_def split: if_splits)
next
  case (HideTimeout h)
  with assms(2,3) show ?thesis by (simp split: option.splits prod.splits)
next
  case Render
  with assms(3) have "\<not> isActive (render s)" by simp
  from render_ends [OF assms(2) this] assms(1,2) Render show ?thesis
    by (auto simp: wellFormed_def)
qed

lemma only_clock_lowers:
  assumes "wellFormed s" and "timeLeft (step e s) < timeLeft s"
  shows "e = ClockTimeout \<and> timeLeft (step e s) = timeLeft s - 1"
proof (cases e)
  case StartClick
  with assms show ?thesis
    by (simp add: startGame_def wellFormed_def split: if_splits)
next
  case (HoleClick i)
  with assms(2) show ?thesis by (simp add: whackItem_def Let_def split: if_splits)
next
  case ClockTimeout
  with assms(2) show ?thesis by (simp split: if_splits)
next
  case (PopTick r1 r2)
  with assms(2) show ?thesis
    by (simp add: popUpdater_def spawnAt_def Let_def split: if_splits)
next
  case (HideTimeout h)
  with assms(2) show ?thesis by (simp split: option.splits prod.splits)
next
  case Render
  with assms(2) show ?thesis by (simp add: render_fields)
qed

text \<open>
  C8: in every reachable state the end cause is none or time-expired; no sequence of
  whacks, from any state, changes \<open>isActive\<close> or the end cause; a whack on what its
  render showed as a Bomb leaves \<open>isActive\<close> and the end cause as they are and only takes
  10 from the score; a step of a reachable state that ends a running session is the render
  that finds no time left, and it records time-expired; and the only step that lowers
  the remaining time is the countdown, by one.
\<close>

theorem bomb_never_ends_session:
  "(\<forall>evs. gameOverReason (run evs initial) = None
          \<or> gameOverReason (run evs initial) = Some Time)
   \<and> (\<forall>s is. isActive (run (map HoleClick is) s) = isActive s
          \<and> gameOverReason (run (map HoleClick is) s) = gameOverReason s)
   \<and> (\<forall>s h a i. js_get h i = Some Bomb \<and> a \<longrightarrow>
          isActive (whackItem h a i s) = isActive s
          \<and> gameOverReason (whackItem h a i s) = gameOverReason s
          \<and> score (whackItem h a i s) = score s - 10)
   \<and> (\<forall>s i. js_get (holeContents_r (rendered s)) i = Some Bomb \<and> isActive_r (rendered s) \<longrightarrow>
          isActive (step (HoleClick i) s) = isActive s
          \<and> gameOverReason (step (HoleClick i) s) = gameOverReason s
          \<and> score (step (HoleClick i) s) = score s - 10)
   \<and> (\<forall>evs e. isActive (run evs initial) \<and> \<not> isActive (step e (run evs initial)) \<longrightarrow>
          e = Render \<and> timeLeft (run evs initial) = 0
          \<and> gameOverReason (step e (run evs initial)) = Some Time)
   \<and> (\<forall>evs e. timeLeft (step e (run evs initial)) < timeLeft (run evs initial) \<longrightarrow>
          e = ClockTimeout
          \<and> timeLeft (step e (run evs initial)) = timeLeft (run evs initial) - 1)"
proof -
  have a: "\<forall>evs. gameOverReason (run evs initial) = None
      \<or> gameOverReason (run evs initial) = Some Time"
  proof
    fix evs
    from wellFormed_reachable [of evs]
    have "gameOverReason (run evs initial) \<noteq> Some BombHit"
      by (simp add: wellFormed_def)
    then show "gameOverReason (run evs initial) = None
        \<or> gameOverReason (run evs initial) = Some Time"
      by (rule reason_cases)
  qed
  have b: "\<forall>s is. isActive (run (map HoleClick is) s) = isActive s
      \<and> gameOverReason (run (map HoleClick is) s) = gameOverReason s"
    by (simp add: whacks_keep_session)
  have c: "\<forall>s h a i. js_get h i = Some Bomb \<and> a \<longrightarrow>
      isActive (whackItem h a i s) = isActive s
      \<and> gameOverReason (whackItem h a i s) = gameOverReason s
      \<and> score (whackItem h a i s) = score s - 10"
    by (simp add: whackItem_def Let_def)
  have c': "\<forall>s i. js_get (holeContents_r (rendered s)) i = Some Bomb \<and> isActive_r (rendered s) \<longrightarrow>
      isActive (step (HoleClick i) s) = isActive s
      \<and> gameOverReason (step (HoleClick i) s) = gameOverReason s
      \<and> score (step (HoleClick i) s) = score s - 10"
    by (simp add: whackItem_def Let_def)
  have d: "\<forall>evs e. isActive (run evs initial) \<and> \<not> isActive (step e (run evs initial)) \<longrightarrow>
      e = Render \<and> timeLeft (run evs initial) = 0
      \<and> gameOverReason (step e (run evs initial)) = Some Time"
    using only_render_ends [OF wellFormed_reachable] by blast
  have e: "\<forall>evs e. timeLeft (step e (run evs initial)) < timeLeft (run evs initial) \<longrightarrow>
      e = ClockTimeout
      \<and> timeLeft (step e (run evs initial)) = timeLeft (run evs initial) - 1"
    using only_clock_lowers [OF wellFormed_reachable] by blast
  from a b c c' d e show ?thesis
    by blast
qed

theorem bomb_never_ends_session_witness:
  "js_get (holeContents_r (rendered demo)) 1 = Some Bomb \<and> isActive_r (rendered demo)
   \<and> isActive (step (HoleClick 1) demo) = isActive demo
   \<and> gameOverReason (step (HoleClick 1) demo) = gameOverReason demo
   \<and> score (step (HoleClick 1) demo) = score demo - 10
   \<and> isActive (run ([StartClick, Render] @ seconds 59 @ [ClockTimeout]) initial)
   \<and> \<not> isActive (step Render (run ([StartClick, Render] @ seconds 59 @ [ClockTimeout]) initial))
   \<and> timeLeft (run ([StartClick, Render] @ seconds 59 @ [ClockTimeout]) initial) = 0
   \<and> gameOverReason (step Render
         (run ([StartClick, Render] @ seconds 59 @ [ClockTimeout]) initial)) = Some Time
   \<and> timeLeft (step ClockTimeout (run [StartClick, Render] initial))
       < timeLeft (run [StartClick, Render] initial)
   \<and> timeLeft (step ClockTimeout (run [StartClick, Render] initial))
       = timeLeft (run [StartClick, Render] initial) - 1"
proof -
  let ?s = "run ([StartClick, Render] @ seconds 59 @ [ClockTimeout]) initial"
  let ?t = "run [StartClick, Render] initial"
  have b: "js_get (holeContents_r (rendered demo)) 1 = Some Bomb \<and> isActive_r (rendered demo)"
    by (simp add: demo_defs)
  have l: "isActive ?s"
    by code_simp
  have e: "\<not> isActive (step Render ?s)"
    by code_simp
  have c: "timeLeft (step ClockTimeout ?t) < timeLeft ?t"
    by code_simp
  note t = bomb_never_ends_session
  from t b have w: "isActive (step (HoleClick 1) demo) = isActive demo
      \<and> gameOverReason (step (HoleClick 1) demo) = gameOverReason demo
      \<and> score (step (HoleClick 1) demo) = score demo - 10"
    by blast
  from t l e have d: "timeLeft ?s = 0 \<and> gameOverReason (step Render ?s) = Some Time"
    by blast
  from t c have f: "timeLeft (step ClockTimeout ?t) = timeLeft ?t - 1"
    by blast
  from b l e c w d f show ?thesis
    by blast
qed

section \<open>Cells change through Empty only\<close>

lemma allowedMove_intro:
  assumes "a = Some x"
    and "b = a \<or> b = Some Empty \<or> (a = Some Empty \<and> (b = Some Mole \<or> b = Some Bomb))"
  shows "allowedMove a b"
  using assms by (cases x) (auto simp: allowedMove_def)

lemma allowedMove_not_swap:
  "allowedMove a b \<Longrightarrow>
     \<not> (a = Some Mole \<and> b = Some Bomb) \<and> \<not> (a = Some Bomb \<and> b = Some Mole)"
  by (auto simp: allowedMove_def)

lemma holeContents_render:
  "holeContents (render s) = holeContents s \<or> holeContents (render s) = emptyGrid"
  by (simp add: render_def commitEffects_def gameTimerEffect_def gameTimerCleanup_def
      poppingEffect_def poppingCleanup_def Let_def)

lemma js_get_emptyGrid: "0 \<le> i \<Longrightarrow> i < 9 \<Longrightarrow> js_get emptyGrid i = Some Empty"
  by (simp add: js_get_def emptyGrid_def GRID_SIZE_def js_length_def MAX_ARRAY_INDEX_def
      nat_less_iff)

lemma cell_after_set:
  assumes "0 \<le> i" and "i < 9"
  shows "js_get (js_set (js_spread h) j v) i = (if i = j then Some v else js_get h i)"
  using assms
  by (simp add: js_get_set_same js_get_set_other js_get_spread MAX_ARRAY_INDEX_def)

lemma cell_after_hide:
  assumes "0 \<le> i" and "i < 9"
  shows "js_get (hideUpdater c v h) i = js_get h i \<or> js_get (hideUpdater c v h) i = Some Empty"
  using assms
  by (simp add: hideUpdater_def Let_def cell_after_set js_get_spread MAX_ARRAY_INDEX_def)

lemma cell_after_pop:
  assumes "gridOk (holeContents s)" and "0 \<le> i" and "i < 9" and "unit_draw r1"
  shows "js_get (holeContents (popUpdater r1 r2 s)) i = js_get (holeContents s) i
       \<or> (js_get (holeContents s) i = Some Empty
          \<and> (js_get (holeContents (popUpdater r1 r2 s)) i = Some Mole
             \<or> js_get (holeContents (popUpdater r1 r2 s)) i = Some Bomb))"
proof (cases "emptyHolesIndexes (holeContents s) = []")
  case True
  then show ?thesis by (simp add: popUpdater_def)
next
  case False
  let ?c = "randomIndexOf r1 (emptyHolesIndexes (holeContents s))"
  from assms(1) have "js_length (holeContents s) \<le> MAX_ARRAY_INDEX + 1"
    by (simp add: gridOk_def)
  then have "?c \<in> {c. 0 \<le> c \<and> c < js_length (holeContents s)
      \<and> js_get (holeContents s) c = Some Empty}"
    using randomIndexOf_mem [OF assms(4) False] by (simp only: emptyHolesIndexes_js_get)
  then have was: "js_get (holeContents s) ?c = Some Empty"
    by simp
  have "holeContents (popUpdater r1 r2 s)
      = js_set (js_spread (holeContents s)) ?c (contentOf r2)"
    using False by (simp add: popUpdater_def Let_def holeContents_spawnAt)
  then show ?thesis
    using was contentOf_not_Empty [of r2] assms(2,3) by (auto simp: cell_after_set)
qed

lemma step_cell:
  assumes "gridOk (holeContents s)" and "0 \<le> i" and "i < 9"
  shows "allowedMove (js_get (holeContents s) i) (js_get (holeContents (step e s)) i)"
proof -
  from gridOk_get [OF assms] obtain x where x: "js_get (holeContents s) i = Some x"
    by blast
  have "js_get (holeContents (step e s)) i = js_get (holeContents s) i
      \<or> js_get (holeContents (step e s)) i = Some Empty
      \<or> (js_get (holeContents s) i = Some Empty
         \<and> (js_get (holeContents (step e s)) i = Some Mole
            \<or> js_get (holeContents (step e s)) i = Some Bomb))"
  proof (cases e)
    case StartClick
    then show ?thesis
      using assms(2,3) by (simp add: startGame_def js_get_emptyGrid)
  next
    case (HoleClick j)
    then show ?thesis
      using assms(2,3) by (simp add: whackItem_def Let_def cell_after_set)
  next
    case ClockTimeout
    then show ?thesis by simp
  next
    case (PopTick r1 r2)
    then show ?thesis
      using cell_after_pop [OF assms, of r1 r2] by auto
  next
    case (HideTimeout h)
    then show ?thesis
      using cell_after_hide [OF assms(2,3)]
      by (auto split: option.splits prod.splits)
  next
    case Render
    then show ?thesis
      using holeContents_render [of s] assms(2,3) by (auto simp: js_get_emptyGrid)
  qed
  with x show ?thesis
    by (rule allowedMove_intro)
qed

text \<open>
  C6: in every reachable state, each of the cells 0 to 8 holds Empty, Mole or Bomb, and
  every event takes it along an allowed move (no change, Empty to Mole or Bomb, Mole or Bomb
  to Empty): never from Mole to Bomb or from Bomb to Mole.
\<close>

theorem cells_move_through_Empty:
  "\<forall>evs i. 0 \<le> i \<and> i < 9 \<longrightarrow>
     js_get (holeContents (run evs initial)) i \<in> {Some Empty, Some Mole, Some Bomb}
     \<and> (\<forall>e. allowedMove (js_get (holeContents (run evs initial)) i)
               (js_get (holeContents (step e (run evs initial))) i)
            \<and> \<not> (js_get (holeContents (run evs initial)) i = Some Mole
                  \<and> js_get (holeContents (step e (run evs initial))) i = Some Bomb)
            \<and> \<not> (js_get (holeContents (run evs initial)) i = Some Bomb
                  \<and> js_get (holeContents (step e (run evs initial))) i = Some Mole))"
proof (intro allI impI)
  fix evs :: "event list" and i :: int
  assume range: "0 \<le> i \<and> i < 9"
  let ?s = "run evs initial"
  have grid: "gridOk (holeContents ?s)"
    using wellFormed_reachable [of evs] by (simp add: wellFormed_def)
  from gridOk_get [OF grid] range obtain x where "js_get (holeContents ?s) i = Some x"
    by blast
  then have one: "js_get (holeContents ?s) i \<in> {Some Empty, Some Mole, Some Bomb}"
    by (cases x) simp_all
  have moves: "allowedMove (js_get (holeContents ?s) i) (js_get (holeContents (step e ?s)) i)"
    for e
    using step_cell [OF grid] range by blast
  show "js_get (holeContents ?s) i \<in> {Some Empty, Some Mole, Some Bomb}
     \<and> (\<forall>e. allowedMove (js_get (holeContents ?s) i) (js_get (holeContents (step e ?s)) i)
            \<and> \<not> (js_get (holeContents ?s) i = Some Mole
                  \<and> js_get (holeContents (step e ?s)) i = Some Bomb)
            \<and> \<not> (js_get (holeContents ?s) i = Some Bomb
                  \<and> js_get (holeContents (step e ?s)) i = Some Mole))"
    using one moves allowedMove_not_swap by blast
qed

theorem cells_move_through_Empty_witness:
  "(0::int) \<le> 0 \<and> (0::int) < 9
   \<and> js_get (holeContents
         (run [StartClick, Render, PopTick (Draw 0 2) (Draw 2 2), Render] initial)) 0 = Some Mole
   \<and> js_get (holeContents (step (HoleClick 0)
         (run [StartClick, Render, PopTick (Draw 0 2) (Draw 2 2), Render] initial))) 0 = Some Empty
   \<and> allowedMove
        (js_get (holeContents
           (run [StartClick, Render, PopTick (Draw 0 2) (Draw 2 2), Render] initial)) 0)
        (js_get (holeContents (step (HoleClick 0)
           (run [StartClick, Render, PopTick (Draw 0 2) (Draw 2 2), Render] initial))) 0)
   \<and> allowedMove (js_get (holeContents (run [StartClick, Render] initial)) 0)
        (js_get (holeContents (step (PopTick (Draw 0 2) (Draw 2 4))
           (run [StartClick, Render] initial))) 0)
   \<and> js_get (holeContents (run [StartClick, Render] initial)) 0 = Some Empty
   \<and> js_get (holeContents (step (PopTick (Draw 0 2) (Draw 2 4))
         (run [StartClick, Render] initial))) 0 = Some Bomb"
proof -
  have before: "js_get (holeContents
      (run [StartClick, Render, PopTick (Draw 0 2) (Draw 2 2), Render] initial)) 0 = Some Mole"
    by code_simp
  have after: "js_get (holeContents (step (HoleClick 0)
      (run [StartClick, Render, PopTick (Draw 0 2) (Draw 2 2), Render] initial))) 0 = Some Empty"
    by code_simp
  have e: "js_get (holeContents (run [StartClick, Render] initial)) 0 = Some Empty"
    by code_simp
  have b: "js_get (holeContents (step (PopTick (Draw 0 2) (Draw 2 4))
      (run [StartClick, Render] initial))) 0 = Some Bomb"
    by code_simp
  have r: "(0::int) \<le> 0 \<and> (0::int) < 9"
    by simp
  from cells_move_through_Empty r
  have m1: "allowedMove
      (js_get (holeContents
         (run [StartClick, Render, PopTick (Draw 0 2) (Draw 2 2), Render] initial)) 0)
      (js_get (holeContents (step (HoleClick 0)
         (run [StartClick, Render, PopTick (Draw 0 2) (Draw 2 2), Render] initial))) 0)"
    by blast
  from cells_move_through_Empty r
  have m2: "allowedMove (js_get (holeContents (run [StartClick, Render] initial)) 0)
      (js_get (holeContents (step (PopTick (Draw 0 2) (Draw 2 4))
         (run [StartClick, Render] initial))) 0)"
    by blast
  from r before after e b m1 m2 show ?thesis
    by blast
qed

section \<open>A hide timeout that fires late\<close>

lemma find_append_fresh:
  "\<forall>t \<in> set ts. \<not> P t \<Longrightarrow> find P (ts @ us) = find P us"
  by (induction ts) simp_all

lemma hide_fires_on_cell:
  assumes "find (\<lambda>t. fst t = h) (timeouts s) = Some (h, c, A)"
    and "js_get (holeContents s) c = Some B" and "0 \<le> c" and "c \<le> MAX_ARRAY_INDEX"
  shows "js_get (holeContents (step (HideTimeout h) s)) c = Some (if A = B then Empty else B)"
  using assms
  by (simp add: hideUpdater_def Let_def js_get_spread js_get_set_same)

lemma emptyHolesIndexes_elems:
  "elems h = elems h' \<Longrightarrow> emptyHolesIndexes h = emptyHolesIndexes h'"
  by (simp add: emptyHolesIndexes_def)

lemma js_set_spread_in_range:
  "0 \<le> c \<Longrightarrow> c < js_length h \<Longrightarrow> c \<le> MAX_ARRAY_INDEX \<Longrightarrow>
     js_set (js_spread h) c v = \<lparr>elems = (elems h)[nat c := Some v], props = []\<rparr>"
  by (simp add: js_set_def js_spread_def js_length_def)

lemma render_in_sync:
  assumes "isActive_r (rendered s) = isActive s" and "timeLeft_r (rendered s) = timeLeft s"
    and "gameOverReason_r (rendered s) = gameOverReason s"
  shows "render s = s\<lparr>rendered := renderOf s\<rparr>"
  using assms by (simp add: render_def commitEffects_def renderOf_def)

text \<open>
  C1, as the claim states it, fails when both spawns have the same kind: the callback
  compares the content of the cell with the content it assigned, so the timeout of the first
  mole hides the second mole. From the initial state: start, render, spawn a Mole at cell 0
  (timeout 0), render, whack cell 0, spawn a Mole at cell 0 again (timeout 1), fire
  timeout 0; cell 0 is then Empty and no longer holds the second Mole.
\<close>

theorem stale_hide_timeout_counterexample:
  "js_get (holeContents (run [StartClick, Render, PopTick (Draw 0 2) (Draw 2 2)] initial)) 0
       = Some Mole
   \<and> timeouts (run [StartClick, Render, PopTick (Draw 0 2) (Draw 2 2)] initial) = [(0, 0, Mole)]
   \<and> js_get (holeContents
         (run [StartClick, Render, PopTick (Draw 0 2) (Draw 2 2), Render, HoleClick 0] initial)) 0
       = Some Empty
   \<and> js_get (holeContents
         (run [StartClick, Render, PopTick (Draw 0 2) (Draw 2 2), Render, HoleClick 0,
               PopTick (Draw 0 2) (Draw 2 2)] initial)) 0
       = Some Mole
   \<and> timeouts (run [StartClick, Render, PopTick (Draw 0 2) (Draw 2 2), Render, HoleClick 0,
         PopTick (Draw 0 2) (Draw 2 2)] initial)
       = [(0, 0, Mole), (1, 0, Mole)]
   \<and> js_get (holeContents
         (run [StartClick, Render, PopTick (Draw 0 2) (Draw 2 2), Render, HoleClick 0,
               PopTick (Draw 0 2) (Draw 2 2), HideTimeout 0] initial)) 0
       = Some Empty"
  by code_simp

text \<open>
  C1, amended: in a running, well-formed state whose render is up to date, let a spawn
  assign \<open>A\<close> to cell \<open>c\<close>, a render show it, a click clear the cell, and a second spawn
  assign \<open>B\<close> to the same cell; the hide timeout of the first spawn is then still pending.
  When that timeout fires, cell \<open>c\<close> still holds \<open>B\<close> if \<open>A\<close> and \<open>B\<close> differ in kind,
  and is Empty if they are of the same kind. The last part says the same of any state,
  however it came about, in which a timeout that captured \<open>c\<close> and \<open>A\<close> is pending and
  cell \<open>c\<close> holds \<open>B\<close>.
\<close>

theorem stale_hide_timeout:
  assumes wf: "wellFormed s" and act: "isActive s" and pop: "popInterval s"
    and sync: "isActive_r (rendered s) = isActive s" "timeLeft_r (rendered s) = timeLeft s"
      "gameOverReason_r (rendered s) = gameOverReason s"
    and draws: "unit_draw r1" "unit_draw r2" "unit_draw r1'" "unit_draw r2'"
    and some: "emptyHolesIndexes (holeContents s) \<noteq> []"
    and c: "c = randomIndexOf r1 (emptyHolesIndexes (holeContents s))"
    and again: "randomIndexOf r1' (emptyHolesIndexes (holeContents s)) = c"
  shows "js_get (holeContents (run [PopTick r1 r2] s)) c = Some (contentOf r2)
       \<and> find (\<lambda>t. fst t = nextHandle s) (timeouts (run [PopTick r1 r2] s))
           = Some (nextHandle s, c, contentOf r2)
       \<and> js_get (holeContents (run [PopTick r1 r2, Render, HoleClick c] s)) c = Some Empty
       \<and> js_get (holeContents (run [PopTick r1 r2, Render, HoleClick c, PopTick r1' r2'] s)) c
           = Some (contentOf r2')
       \<and> find (\<lambda>t. fst t = nextHandle s)
             (timeouts (run [PopTick r1 r2, Render, HoleClick c, PopTick r1' r2'] s))
           = Some (nextHandle s, c, contentOf r2)
       \<and> js_get (holeContents
             (run [PopTick r1 r2, Render, HoleClick c, PopTick r1' r2',
                   HideTimeout (nextHandle s)] s)) c
           = Some (if contentOf r2 = contentOf r2' then Empty else contentOf r2')
       \<and> (\<forall>t h A B.
             find (\<lambda>x. fst x = h) (timeouts t) = Some (h, c, A)
             \<and> js_get (holeContents t) c = Some B \<longrightarrow>
             js_get (holeContents (step (HideTimeout h) t)) c
               = Some (if A = B then Empty else B))"
proof -
  let ?h0 = "holeContents s"
  let ?E = "emptyHolesIndexes ?h0"
  let ?n = "nextHandle s"
  let ?A = "contentOf r2"
  let ?B = "contentOf r2'"
  from wf have fresh: "\<forall>t \<in> set (timeouts s). \<not> fst t = ?n"
    and len: "js_length ?h0 \<le> MAX_ARRAY_INDEX + 1"
    by (auto simp: wellFormed_def timersTracked_def gridOk_def)
  have "c \<in> set ?E"
    unfolding c by (rule randomIndexOf_mem [OF draws(1) some])
  then have range: "0 \<le> c" "c < js_length ?h0" and was: "elems ?h0 ! nat c = Some Empty"
    by (simp_all add: set_emptyHolesIndexes)
  from range len have max: "c \<le> MAX_ARRAY_INDEX"
    by simp
  \<comment> \<open>the first spawn\<close>
  define s1 where "s1 = step (PopTick r1 r2) s"
  have s1: "s1 = spawnAt c ?A s"
    using pop draws some by (simp add: s1_def popUpdater_def Let_def c)
  have h1: "holeContents s1 = \<lparr>elems = (elems ?h0)[nat c := Some ?A], props = []\<rparr>"
    using range max by (simp add: s1 holeContents_spawnAt js_set_spread_in_range)
  have t1: "timeouts s1 = timeouts s @ [(?n, c, ?A)]" and a1: "isActive s1"
    and p1: "popInterval s1" and n1: "nextHandle s1 = Suc ?n"
    and sync1: "isActive_r (rendered s1) = isActive s1" "timeLeft_r (rendered s1) = timeLeft s1"
      "gameOverReason_r (rendered s1) = gameOverReason s1"
    using act pop sync by (simp_all add: s1 spawnAt_def Let_def)
  have g1: "js_get (holeContents s1) c = Some ?A"
    by (simp add: s1 holeContents_spawnAt js_get_set_same)
  have f1: "find (\<lambda>t. fst t = ?n) (timeouts s1) = Some (?n, c, ?A)"
    by (simp add: t1 find_append_fresh [OF fresh])
  \<comment> \<open>the render that shows it, and the click\<close>
  define s2 where "s2 = step (HoleClick c) (step Render s1)"
  have notEmpty: "Some ?A \<noteq> Some Empty"
    using contentOf_not_Empty [of r2] by auto
  have s2: "s2 = whackItem (holeContents s1) True c (s1\<lparr>rendered := renderOf s1\<rparr>)"
    using a1 by (simp add: s2_def render_in_sync [OF sync1] renderOf_def)
  have "c < js_length (holeContents s1)"
    using range by (simp add: h1 js_length_def)
  then have "holeContents s2 = \<lparr>elems = (elems (holeContents s1))[nat c := Some Empty], props = []\<rparr>"
    using g1 notEmpty range max
    by (simp add: s2 whackItem_def Let_def js_set_spread_in_range)
  also have "(elems (holeContents s1))[nat c := Some Empty] = elems ?h0"
    using was list_update_id [of "elems ?h0" "nat c"] by (simp add: h1)
  finally have h2: "holeContents s2 = \<lparr>elems = elems ?h0, props = []\<rparr>" .
  have t2: "timeouts s2 = timeouts s1" and p2: "popInterval s2"
    and n2: "nextHandle s2 = Suc ?n"
    using p1 n1 by (simp_all add: s2 whackItem_def Let_def)
  have g2: "js_get (holeContents s2) c = Some Empty"
    using range max was by (simp add: h2 js_get_def js_length_def)
  have E2: "emptyHolesIndexes (holeContents s2) = ?E"
    by (rule emptyHolesIndexes_elems) (simp add: h2)
  \<comment> \<open>the second spawn\<close>
  define s3 where "s3 = step (PopTick r1' r2') s2"
  have s3: "s3 = spawnAt c ?B s2"
    using p2 draws some
    by (simp add: s3_def popUpdater_def Let_def E2 again)
  have g3: "js_get (holeContents s3) c = Some ?B"
    by (simp add: s3 holeContents_spawnAt js_get_set_same)
  have t3: "timeouts s3 = timeouts s @ [(?n, c, ?A), (Suc ?n, c, ?B)]"
    by (simp add: s3 spawnAt_def Let_def t2 t1 n2)
  have f3: "find (\<lambda>t. fst t = ?n) (timeouts s3) = Some (?n, c, ?A)"
    by (simp add: t3 find_append_fresh [OF fresh])
  \<comment> \<open>the hide timeout of the first spawn\<close>
  have g4: "js_get (holeContents (step (HideTimeout ?n) s3)) c
      = Some (if ?A = ?B then Empty else ?B)"
    by (rule hide_fires_on_cell [OF f3 g3 range(1) max])
  have any: "\<forall>t h A B.
      find (\<lambda>x. fst x = h) (timeouts t) = Some (h, c, A)
      \<and> js_get (holeContents t) c = Some B \<longrightarrow>
      js_get (holeContents (step (HideTimeout h) t)) c = Some (if A = B then Empty else B)"
    using hide_fires_on_cell [OF _ _ range(1) max] by blast
  have r1: "run [PopTick r1 r2] s = s1"
    and r2: "run [PopTick r1 r2, Render, HoleClick c] s = s2"
    and r3: "run [PopTick r1 r2, Render, HoleClick c, PopTick r1' r2'] s = s3"
    and r4: "run [PopTick r1 r2, Render, HoleClick c, PopTick r1' r2', HideTimeout ?n] s
        = step (HideTimeout ?n) s3"
    by (simp_all add: s1_def s2_def s3_def del: step.simps)
  show ?thesis
    unfolding r1 r2 r3 r4 using g1 f1 g2 g3 f3 g4 any by blast
qed

theorem stale_hide_timeout_witness:
  "wellFormed (run [StartClick, Render] initial) \<and> isActive (run [StartClick, Render] initial)
   \<and> popInterval (run [StartClick, Render] initial)
   \<and> unit_draw (Draw 0 2) \<and> unit_draw (Draw 2 2) \<and> unit_draw (Draw 2 4)
   \<and> emptyHolesIndexes (holeContents (run [StartClick, Render] initial)) \<noteq> []
   \<and> randomIndexOf (Draw 0 2) (emptyHolesIndexes (holeContents (run [StartClick, Render] initial)))
       = 0
   \<and> nextHandle (run [StartClick, Render] initial) = 0
   \<and> contentOf (Draw 2 2) = Mole \<and> contentOf (Draw 2 4) = Bomb
   \<and> js_get (holeContents
         (run [PopTick (Draw 0 2) (Draw 2 2), Render, HoleClick 0, PopTick (Draw 0 2) (Draw 2 4),
               HideTimeout 0]
            (run [StartClick, Render] initial))) 0 = Some Bomb
   \<and> js_get (holeContents
         (run [PopTick (Draw 0 2) (Draw 2 2), Render, HoleClick 0, PopTick (Draw 0 2) (Draw 2 2),
               HideTimeout 0]
            (run [StartClick, Render] initial))) 0 = Some Empty"
proof -
  let ?s = "run [StartClick, Render] initial"
  have wf: "wellFormed ?s"
    by (rule wellFormed_reachable)
  have act: "isActive ?s" and pop: "popInterval ?s" and n: "nextHandle ?s = 0"
    and sync: "isActive_r (rendered ?s) = isActive ?s" "timeLeft_r (rendered ?s) = timeLeft ?s"
      "gameOverReason_r (rendered ?s) = gameOverReason ?s"
    by code_simp+
  note d = smallDraws
  have E: "emptyHolesIndexes (holeContents ?s) = [0, 1, 2, 3, 4, 5, 6, 7, 8]"
    by code_simp
  then have some: "emptyHolesIndexes (holeContents ?s) \<noteq> []"
    by simp
  have c: "0 = randomIndexOf (Draw 0 2) (emptyHolesIndexes (holeContents ?s))"
    by code_simp
  note k = smallContents
  note differ = stale_hide_timeout [OF wf act pop sync d(1) d(2) d(1) d(3) some c c [symmetric]]
  note same = stale_hide_timeout [OF wf act pop sync d(1) d(2) d(1) d(2) some c c [symmetric]]
  from differ have x: "js_get (holeContents
      (run [PopTick (Draw 0 2) (Draw 2 2), Render, HoleClick 0, PopTick (Draw 0 2) (Draw 2 4),
            HideTimeout 0] ?s)) 0 = Some Bomb"
    by (simp add: n k del: run.simps step.simps)
  from same have y: "js_get (holeContents
      (run [PopTick (Draw 0 2) (Draw 2 2), Render, HoleClick 0, PopTick (Draw 0 2) (Draw 2 2),
            HideTimeout 0] ?s)) 0 = Some Empty"
    by (simp add: n k del: run.simps step.simps)
  from wf act pop d some c [symmetric] n k x y show ?thesis
    by blast
qed

section \<open>The end of a session\<close>

text \<open>
  When the countdown fires with at most one second left and no other event falls between
  the two renders that follow, the session is over as the specification says.
\<close>

lemma clearTimeouts_tracked:
  "fst ` set ts \<subseteq> set hs \<Longrightarrow> clearTimeouts hs ts = []"
  by (auto simp: clearTimeouts_def filter_empty_conv)

lemma expiry_two_commits:
  assumes "isActive s" and "timerId s" and "timeLeft s \<le> 1"
    and "isActive_r (rendered s) = isActive s" and "timeLeft_r (rendered s) = timeLeft s"
    and "gameOverReason_r (rendered s) = gameOverReason s"
    and "fst ` set (timeouts s) \<subseteq> set (moleTimeouts s)"
  shows "\<not> isActive (run [ClockTimeout, Render, Render] s)
       \<and> gameOverReason (run [ClockTimeout, Render, Render] s)
           = (if gameOverReason s = None then Some Time else gameOverReason s)
       \<and> holeContents (run [ClockTimeout, Render, Render] s) = emptyGrid
       \<and> timeouts (run [ClockTimeout, Render, Render] s) = []
       \<and> \<not> popInterval (run [ClockTimeout, Render, Render] s)
       \<and> \<not> timerId (run [ClockTimeout, Render, Render] s)
       \<and> score (run [ClockTimeout, Render, Render] s) = score s"
  using assms
  by (simp add: render_def renderOf_def commitEffects_def gameTimerEffect_def
      gameTimerCleanup_def poppingEffect_def poppingCleanup_def Let_def clearTimeouts_tracked)

text \<open>
  C3 does not hold of the code when a spawn tick falls between those two renders. After
  start, render, 59 seconds and the last tick of the countdown the session is running with
  no time left. The next render ends it: its effect sets \<open>isActive\<close> to false and resets
  the grid, but the spawn interval stays registered, since only the cleanup of the popping
  effect clears it, at the following commit. A tick of the interval before that commit
  spawns a Mole at cell 0. The following render then clears the interval and the hide
  timeout of that mole: the session has ended with cause time-expired, no timer is pending,
  and cell 0 holds a Mole that nothing removes before the next start.
\<close>

theorem expiry_race:
  "isActive (run ([StartClick, Render] @ seconds 59 @ [ClockTimeout]) initial)
   \<and> timeLeft (run ([StartClick, Render] @ seconds 59 @ [ClockTimeout]) initial) = 0
   \<and> \<not> isActive (run ([StartClick, Render] @ seconds 59 @ [ClockTimeout, Render]) initial)
   \<and> popInterval (run ([StartClick, Render] @ seconds 59 @ [ClockTimeout, Render]) initial)
   \<and> holeContents (run ([StartClick, Render] @ seconds 59 @ [ClockTimeout, Render]) initial)
       = emptyGrid
   \<and> js_get (holeContents (run ([StartClick, Render] @ seconds 59
         @ [ClockTimeout, Render, PopTick (Draw 0 2) (Draw 2 2)]) initial)) 0 = Some Mole
   \<and> \<not> isActive (run ([StartClick, Render] @ seconds 59
         @ [ClockTimeout, Render, PopTick (Draw 0 2) (Draw 2 2), Render]) initial)
   \<and> gameOverReason (run ([StartClick, Render] @ seconds 59
         @ [ClockTimeout, Render, PopTick (Draw 0 2) (Draw 2 2), Render]) initial) = Some Time
   \<and> \<not> popInterval (run ([StartClick, Render] @ seconds 59
         @ [ClockTimeout, Render, PopTick (Draw 0 2) (Draw 2 2), Render]) initial)
   \<and> timeouts (run ([StartClick, Render] @ seconds 59
         @ [ClockTimeout, Render, PopTick (Draw 0 2) (Draw 2 2), Render]) initial) = []
   \<and> js_get (holeContents (run ([StartClick, Render] @ seconds 59
         @ [ClockTimeout, Render, PopTick (Draw 0 2) (Draw 2 2), Render]) initial)) 0 = Some Mole
   \<and> js_get (holeContents (run ([StartClick, Render] @ seconds 59
         @ [ClockTimeout, Render, PopTick (Draw 0 2) (Draw 2 2), Render,
            HideTimeout 0, Render, HoleClick 0, PopTick (Draw 0 2) (Draw 2 2), ClockTimeout,
            Render]) initial)) 0 = Some Mole"
  by code_simp

end
